theory Spec2Isabelle
  imports Complex_Main "HOL-Library.Product_Lexorder" "HOL-Library.Char_ord"
    "HOL-Library.List_Lexorder"
begin

section \<open>ManTraq: the ledger, attendance and payroll core of app.py\<close>

text \<open>
  The application keeps four SQLite tables (employees, attendance, clients, installments)
  and every operation of app.py opens a connection, runs a few parameterised statements
  and commits. The model passes the database explicitly: each operation takes the state
  before and returns the state after the commit, together with its Python return value.

  Conventions of the embedding:
  \<^item> a REAL column and a Python float hold a binary64 number, represented by the real
    number it denotes; the arithmetic on amounts (the lines of \<open>calculate_salary\<close>, the
    subtraction of \<open>record_installment\<close>) rounds every result to binary64, as Python
    does. The quotient of seconds by 3600 in \<open>check_out_attendance\<close> and SQL's \<open>SUM\<close>
    are taken exactly;
  \<^item> a nullable column that the code reads or writes as NULL is an \<open>option\<close>;
  \<^item> \<open>datetime.datetime.now()\<close> and \<open>get_geolocation()\<close> are inputs of the operation
    that calls them (\<open>now\<close>, \<open>location\<close>);
  \<^item> an INTEGER PRIMARY KEY AUTOINCREMENT column takes its value from a counter kept
    with the table (SQLite's \<open>sqlite_sequence\<close>);
  \<^item> an exception that the source lets escape is a value \<open>Inl\<close> of the result.
\<close>

subsection \<open>Timestamps\<close>

text \<open>
  A naive \<open>datetime.datetime\<close>. The TEXT columns hold \<open>isoformat()\<close> of such a value,
  the zero-padded rendering \<open>YYYY-MM-DDTHH:MM:SS[.ffffff]\<close>, and SQLite compares these
  strings bytewise. The model stores the value itself and compares by \<open>dt_key\<close>, the
  tuple that Python's own comparison of two datetimes uses; \<open>isoformat_le_iff\<close> below
  shows that the two orders are the same on valid values, and \<open>isoformat_eq_iff\<close> that
  the rendering loses nothing.
\<close>

record datetime =
  year :: int
  month :: int
  day :: int
  hour :: int
  minute :: int
  second :: int
  microsecond :: int

definition dt_key :: "datetime \<Rightarrow> int \<times> int \<times> int \<times> int \<times> int \<times> int \<times> int" where
  "dt_key d = (year d, month d, day d, hour d, minute d, second d, microsecond d)"

text \<open>The calendar arithmetic of the datetime module: the proleptic Gregorian ordinal of
  a date (\<open>toordinal\<close>), from which the difference of two timestamps is computed.\<close>

definition is_leap :: "int \<Rightarrow> bool" where
  "is_leap y = (y mod 4 = 0 \<and> (y mod 100 \<noteq> 0 \<or> y mod 400 = 0))"

definition days_before_year :: "int \<Rightarrow> int" where
  "days_before_year y =
     (let y1 = y - 1 in y1 * 365 + y1 div 4 - y1 div 100 + y1 div 400)"

definition days_in_month :: "int \<Rightarrow> int \<Rightarrow> int" where
  "days_in_month y m =
     (if m = 2 \<and> is_leap y then 29
      else [31, 28, 31, 30, 31, 30, 31, 31, 30, 31, 30, 31] ! nat (m - 1))"

definition days_before_month :: "int \<Rightarrow> int \<Rightarrow> int" where
  "days_before_month y m =
     [0, 31, 59, 90, 120, 151, 181, 212, 243, 273, 304, 334] ! nat (m - 1)
       + (if m > 2 \<and> is_leap y then 1 else 0)"

definition ymd2ord :: "int \<Rightarrow> int \<Rightarrow> int \<Rightarrow> int" where
  "ymd2ord y m d = days_before_year y + days_before_month y m + d"

text \<open>The values the constructor of \<open>datetime\<close> accepts.\<close>

definition valid_datetime :: "datetime \<Rightarrow> bool" where
  "valid_datetime d \<longleftrightarrow>
     1 \<le> year d \<and> year d \<le> 9999 \<and> 1 \<le> month d \<and> month d \<le> 12
     \<and> 1 \<le> day d \<and> day d \<le> days_in_month (year d) (month d)
     \<and> 0 \<le> hour d \<and> hour d < 24 \<and> 0 \<le> minute d \<and> minute d < 60
     \<and> 0 \<le> second d \<and> second d < 60
     \<and> 0 \<le> microsecond d \<and> microsecond d < 1000000"

text \<open>
  \<open>isoformat()\<close>: the fields from \<open>'%04d-%02d-%02dT%02d:%02d:%02d'\<close>, followed by
  \<open>'.%06d'\<close> of the microseconds when they are not zero. \<open>zfill k n\<close> is \<open>n\<close> in
  \<open>k\<close> decimal digits, for \<open>n\<close> below \<open>10 ^ k\<close>.
\<close>

definition digit :: "nat \<Rightarrow> char" where
  "digit n = ''0123456789'' ! n"

fun zfill :: "nat \<Rightarrow> nat \<Rightarrow> string" where
  "zfill 0 n = []"
| "zfill (Suc k) n = zfill k (n div 10) @ [digit (n mod 10)]"

definition fraction :: "int \<Rightarrow> string" where
  "fraction u = (if u = 0 then [] else ''.'' @ zfill 6 (nat u))"

definition isoformat :: "datetime \<Rightarrow> string" where
  "isoformat d =
     zfill 4 (nat (year d)) @ ''-'' @ zfill 2 (nat (month d)) @ ''-'' @ zfill 2 (nat (day d))
     @ ''T'' @ zfill 2 (nat (hour d)) @ '':'' @ zfill 2 (nat (minute d)) @ '':''
     @ zfill 2 (nat (second d)) @ fraction (microsecond d)"

text \<open>
  \<open>a - b\<close> on two datetimes is the timedelta of the differences of the ordinals, of the
  seconds of the day and of the microseconds; \<open>total_seconds()\<close> is its length in
  seconds. (Python normalises the three fields of a timedelta, which leaves the total
  unchanged.)
\<close>

definition dt_sub :: "datetime \<Rightarrow> datetime \<Rightarrow> int \<times> int \<times> int" where
  "dt_sub a b =
     (let days1 = ymd2ord (year a) (month a) (day a);
          days2 = ymd2ord (year b) (month b) (day b);
          secs1 = second a + minute a * 60 + hour a * 3600;
          secs2 = second b + minute b * 60 + hour b * 3600
      in (days1 - days2, secs1 - secs2, microsecond a - microsecond b))"

fun total_seconds :: "int \<times> int \<times> int \<Rightarrow> real" where
  "total_seconds (days, seconds, microseconds) =
     real_of_int ((days * 86400 + seconds) * 1000000 + microseconds) / 1000000"


subsection \<open>Binary64 arithmetic\<close>

text \<open>
  A REAL column and a Python float hold an IEEE-754 binary64 number. The model represents
  such a number by the real number it denotes, and an arithmetic operation of Python by
  the exact operation followed by \<open>round64\<close>, the rounding to the nearest binary64
  number with ties going to the even significand.

  \<open>round64_pos x\<close> scales \<open>x\<close> by powers of two until the significand \<open>m\<close> lies in
  \<open>[2^52, 2^53)\<close>, or until the scale is \<open>2^-1074\<close>, the spacing of the subnormal
  numbers, and rounds \<open>m\<close> to an integer. The scale of a binary64 number below \<open>2^1024\<close>
  is reached within 1074 steps from 1 in either direction. Infinities and NaN are not
  represented: a result beyond the largest binary64 number is rounded as if the exponent
  had no upper bound.
\<close>

definition round_half_even :: "real \<Rightarrow> int" where
  "round_half_even m =
     (let f = \<lfloor>m\<rfloor>; d = m - of_int f
      in if d < 1 / 2 then f
         else if 1 / 2 < d then f + 1
         else if even f then f else f + 1)"

fun normalise :: "nat \<Rightarrow> real \<Rightarrow> real \<Rightarrow> real \<times> real" where
  "normalise 0 m s = (m, s)"
| "normalise (Suc n) m s =
     (if 2 ^ 53 \<le> m then normalise n (m / 2) (s * 2)
      else if m < 2 ^ 52 then normalise n (m * 2) (s / 2)
      else (m, s))"

definition round64_pos :: "real \<Rightarrow> real" where
  "round64_pos x = (case normalise 1074 x 1 of (m, s) \<Rightarrow> of_int (round_half_even m) * s)"

definition round64 :: "real \<Rightarrow> real" where
  "round64 x = (if x = 0 then 0 else if x < 0 then - round64_pos (- x) else round64_pos x)"

text \<open>A decimal literal of the source denotes the binary64 number nearest to it; \<open>*\<close>,
  \<open>+\<close> and \<open>-\<close> on floats round their exact result.\<close>

definition float_lit :: "real \<Rightarrow> real" where
  "float_lit x = round64 x"

definition float_mul :: "real \<Rightarrow> real \<Rightarrow> real" where
  "float_mul a b = round64 (a * b)"

definition float_add :: "real \<Rightarrow> real \<Rightarrow> real" where
  "float_add a b = round64 (a + b)"

definition float_sub :: "real \<Rightarrow> real \<Rightarrow> real" where
  "float_sub a b = round64 (a - b)"

text \<open>The numbers that rounding leaves as they are, and the magnitudes of the normal
  binary64 numbers.\<close>

definition representable :: "real \<Rightarrow> bool" where
  "representable x \<longleftrightarrow> round64 x = x"

definition normal_range :: "real \<Rightarrow> bool" where
  "normal_range x \<longleftrightarrow> 1 / 2 ^ 1022 \<le> \<bar>x\<bar> \<and> \<bar>x\<bar> < 2 ^ 1024"

subsection \<open>Tables\<close>

record employee =
  employee_id :: string
  full_name :: string
  contact_number :: string
  email :: string
  aadhar :: string
  dob :: string
  address :: string
  photo :: "string option"
  aadhar_photo :: "string option"
  signature_photo :: "string option"
  role :: string
  password :: string
  assigned_client_id :: "string option"
  rate_per_hour :: "real option"

text \<open>A row of \<open>attendance\<close>; \<open>att_id\<close> is the column \<open>id\<close> and \<open>att_employee_id\<close>
  the column \<open>employee_id\<close>.\<close>

record attendance_row =
  att_id :: nat
  att_employee_id :: string
  check_in_time :: datetime
  check_in_location :: "string option"
  check_in_selfie :: string
  check_out_time :: "datetime option"
  check_out_location :: "string option"
  working_hours :: "real option"

text \<open>The dictionary passed to \<open>register_client\<close>, and the row it becomes.\<close>

record client =
  client_id :: string
  org_name :: string
  description :: string
  requirements :: string
  company_contact :: string
  company_email :: string
  person_in_charge_name :: string
  person_in_charge_phone :: string
  person_in_charge_email :: string
  company_type :: string
  total_bill :: real

record client_row = client +
  outstanding :: real

text \<open>A row of \<open>installments\<close>; \<open>inst_id\<close> is the column \<open>id\<close> and \<open>inst_client_id\<close>
  the column \<open>client_id\<close>.\<close>

record installment =
  inst_id :: nat
  inst_client_id :: string
  amount_paid :: real
  timestamp :: datetime

text \<open>
  The database file. Tables with a TEXT PRIMARY KEY are maps from the key; the two
  tables with a generated id are lists in insertion order.
\<close>

record db =
  employees :: "string \<rightharpoonup> employee"
  attendance :: "attendance_row list"
  attendance_seq :: nat
  clients :: "string \<rightharpoonup> client_row"
  installments :: "installment list"
  installments_seq :: nat

datatype error = IntegrityError

text \<open>\<open>init_db\<close> on a new file: the four tables, empty.\<close>

definition init_db :: db where
  "init_db = \<lparr>employees = Map.empty, attendance = [], attendance_seq = 0,
              clients = Map.empty, installments = [], installments_seq = 0\<rparr>"

subsection \<open>Client module\<close>

text \<open>\<open>register_client\<close>: one INSERT; the value bound to \<open>outstanding\<close> is
  \<open>client['total_bill']\<close>. A second row with the same primary key is refused by SQLite.\<close>

definition register_client :: "db \<Rightarrow> client \<Rightarrow> error + db" where
  "register_client s c =
     (if client_id c \<in> dom (clients s) then Inl IntegrityError
      else Inr (s\<lparr>clients := (clients s)(client_id c \<mapsto>
        \<lparr>client_id = client_id c,
         org_name = org_name c,
         description = description c,
         requirements = requirements c,
         company_contact = company_contact c,
         company_email = company_email c,
         person_in_charge_name = person_in_charge_name c,
         person_in_charge_phone = person_in_charge_phone c,
         person_in_charge_email = person_in_charge_email c,
         company_type = company_type c,
         total_bill = total_bill c,
         outstanding = total_bill c\<rparr>)\<rparr>))"

text \<open>
  \<open>record_installment\<close>: the INSERT comes first, then the SELECT of the client's
  outstanding; the UPDATE runs only when the SELECT found a row. The subtraction is
  Python's, on two floats. The function returns nothing.
\<close>

definition record_installment :: "db \<Rightarrow> string \<Rightarrow> real \<Rightarrow> datetime \<Rightarrow> db" where
  "record_installment s cid amount now =
     (let s1 = s\<lparr>installments := installments s @
                   [\<lparr>inst_id = installments_seq s + 1, inst_client_id = cid,
                     amount_paid = amount, timestamp = now\<rparr>],
                 installments_seq := installments_seq s + 1\<rparr>
      in case clients s1 cid of
           None \<Rightarrow> s1
         | Some result \<Rightarrow>
             (let new_outstanding = float_sub (outstanding result) amount
              in s1\<lparr>clients := (clients s1)(cid \<mapsto> result\<lparr>outstanding := new_outstanding\<rparr>)\<rparr>))"

text \<open>A sequence of calls for one client, each with its amount and the clock reading
  of the call.\<close>

fun record_installments :: "db \<Rightarrow> string \<Rightarrow> (real \<times> datetime) list \<Rightarrow> db" where
  "record_installments s cid [] = s"
| "record_installments s cid ((amount, now) # calls) =
     record_installments (record_installment s cid amount now) cid calls"

text \<open>\<open>assign_employee_to_client\<close>: one UPDATE, which changes no row when the
  employee is absent.\<close>

definition assign_employee_to_client :: "db \<Rightarrow> string \<Rightarrow> string \<Rightarrow> real \<Rightarrow> db" where
  "assign_employee_to_client s eid cid rate =
     (case employees s eid of
        None \<Rightarrow> s
      | Some e \<Rightarrow> s\<lparr>employees := (employees s)(eid \<mapsto>
          e\<lparr>assigned_client_id := Some cid, rate_per_hour := Some rate\<rparr>)\<rparr>)"

subsection \<open>Employee module\<close>

definition register_employee :: "db \<Rightarrow> employee \<Rightarrow> error + db" where
  "register_employee s e =
     (if employee_id e \<in> dom (employees s) then Inl IntegrityError
      else Inr (s\<lparr>employees := (employees s)(employee_id e \<mapsto> e)\<rparr>))"

subsection \<open>Attendance module\<close>

text \<open>\<open>check_in_attendance\<close>: one INSERT of an open session; the checkout columns of
  the new row are NULL. It returns the check-in time.\<close>

definition check_in_attendance ::
  "db \<Rightarrow> string \<Rightarrow> string \<Rightarrow> datetime \<Rightarrow> string option \<Rightarrow> datetime \<times> db" where
  "check_in_attendance s eid selfie_bytes now location =
     (now, s\<lparr>attendance := attendance s @
               [\<lparr>att_id = attendance_seq s + 1, att_employee_id = eid,
                 check_in_time = now, check_in_location = location,
                 check_in_selfie = selfie_bytes, check_out_time = None,
                 check_out_location = None, working_hours = None\<rparr>],
             attendance_seq := attendance_seq s + 1\<rparr>)"

text \<open>
  \<open>ORDER BY check_in_time DESC LIMIT 1\<close> over the rows a query selected, in table
  order: the row with the greatest check-in time. SQL does not say which of several rows
  with the same greatest time comes first; the model takes the first of them in table
  order.
\<close>

fun order_by_check_in_desc_limit_1 :: "attendance_row list \<Rightarrow> attendance_row option" where
  "order_by_check_in_desc_limit_1 [] = None"
| "order_by_check_in_desc_limit_1 (r # rs) =
     (case order_by_check_in_desc_limit_1 rs of
        None \<Rightarrow> Some r
      | Some r' \<Rightarrow>
          if dt_key (check_in_time r) < dt_key (check_in_time r') then Some r' else Some r)"

definition open_sessions :: "db \<Rightarrow> string \<Rightarrow> attendance_row list" where
  "open_sessions s eid =
     filter (\<lambda>r. att_employee_id r = eid \<and> check_out_time r = None) (attendance s)"

text \<open>
  \<open>check_out_attendance\<close>: the SELECT of the latest open session of the employee; with
  no such row the function returns \<open>(None, message)\<close> and writes nothing (left);
  otherwise it returns \<open>(working_hours, check_out_time)\<close> after the UPDATE of the rows
  whose id is the selected one's (right).
\<close>

definition check_out_attendance ::
  "db \<Rightarrow> string \<Rightarrow> datetime \<Rightarrow> string option \<Rightarrow> (string + real \<times> datetime) \<times> db" where
  "check_out_attendance s eid now location =
     (case order_by_check_in_desc_limit_1 (open_sessions s eid) of
        None \<Rightarrow> (Inl ''No check-in record found. Please check in first.'', s)
      | Some row \<Rightarrow>
          (let hours = total_seconds (dt_sub now (check_in_time row)) / 3600
           in (Inr (hours, now),
               s\<lparr>attendance := map (\<lambda>r. if att_id r = att_id row
                                         then r\<lparr>check_out_time := Some now,
                                                check_out_location := location,
                                                working_hours := Some hours\<rparr>
                                         else r) (attendance s)\<rparr>)))"

subsection \<open>Salary module\<close>

text \<open>SQL's \<open>SUM\<close>: NULL values are skipped, and the sum of no value is NULL.\<close>

fun sql_sum :: "real option list \<Rightarrow> real option" where
  "sql_sum [] = None"
| "sql_sum (None # vs) = sql_sum vs"
| "sql_sum (Some v # vs) = (case sql_sum vs of None \<Rightarrow> Some v | Some w \<Rightarrow> Some (v + w))"

record salary =
  total_hours :: real
  base_salary :: real
  retirement_benefits1 :: real
  retirement_benefits2 :: real
  insurance1 :: real
  insurance2 :: real
  actual_salary :: real

text \<open>\<open>datetime.datetime(now.year, now.month, 1)\<close>, midnight of the first day of the
  month of \<open>now\<close>.\<close>

definition start_month :: "datetime \<Rightarrow> datetime" where
  "start_month now =
     \<lparr>year = year now, month = month now, day = 1,
      hour = 0, minute = 0, second = 0, microsecond = 0\<rparr>"

text \<open>The WHERE clause of the query of \<open>calculate_salary\<close>.\<close>

definition in_salary_query :: "string \<Rightarrow> datetime \<Rightarrow> attendance_row \<Rightarrow> bool" where
  "in_salary_query eid now r \<longleftrightarrow>
     att_employee_id r = eid \<and> check_out_time r \<noteq> None
     \<and> dt_key (check_in_time r) \<ge> dt_key (start_month now)"

definition calculate_salary :: "db \<Rightarrow> string \<Rightarrow> datetime \<Rightarrow> salary option" where
  "calculate_salary s eid now =
     (case employees s eid of
        None \<Rightarrow> None
      | Some result \<Rightarrow>
         (case rate_per_hour result of
            None \<Rightarrow> None
          | Some rate \<Rightarrow>
             (let hours = (case sql_sum (map working_hours
                                      (filter (in_salary_query eid now) (attendance s))) of
                             None \<Rightarrow> 0 | Some h \<Rightarrow> h);
                  base = float_mul rate hours;
                  rb1 = float_mul (float_lit 0.12) base;
                  rb2 = float_mul (float_lit 0.13) base;
                  ins1 = float_mul (float_lit 0.05) base;
                  ins2 = float_mul (float_lit 0.05) base;
                  actual = float_sub base (float_add rb1 ins1)
              in Some \<lparr>total_hours = hours, base_salary = base,
                       retirement_benefits1 = rb1, retirement_benefits2 = rb2,
                       insurance1 = ins1, insurance2 = ins2,
                       actual_salary = actual\<rparr>)))"

text \<open>The hours a row contributes to a sum: a NULL contributes nothing.\<close>

definition hours_or_0 :: "attendance_row \<Rightarrow> real" where
  "hours_or_0 r = (case working_hours r of None \<Rightarrow> 0 | Some h \<Rightarrow> h)"

subsection \<open>Table invariant\<close>

text \<open>The ids of \<open>attendance\<close> are a primary key, and none exceeds the counter that
  generates them.\<close>

definition attendance_wf :: "db \<Rightarrow> bool" where
  "attendance_wf s \<longleftrightarrow>
     distinct (map att_id (attendance s))
     \<and> list_all (\<lambda>r. att_id r \<le> attendance_seq s) (attendance s)"

subsection \<open>Scenario data\<close>

text \<open>The client of the billing scenario: \<open>C1\<close> with a total bill of 5000.\<close>

definition client_C1 :: client where
  "client_C1 =
     \<lparr>client_id = ''C1'', org_name = ''Acme'', description = [], requirements = [],
      company_contact = [], company_email = [], person_in_charge_name = [],
      person_in_charge_phone = [], person_in_charge_email = [], company_type = ''GEM'',
      total_bill = 5000\<rparr>"

definition client_C1_row :: client_row where
  "client_C1_row =
     \<lparr>client_id = ''C1'', org_name = ''Acme'', description = [], requirements = [],
      company_contact = [], company_email = [], person_in_charge_name = [],
      person_in_charge_phone = [], person_in_charge_email = [], company_type = ''GEM'',
      total_bill = 5000, outstanding = 5000\<rparr>"

definition db_C1 :: db where
  "db_C1 = init_db\<lparr>clients := [''C1'' \<mapsto> client_C1_row]\<rparr>"

definition at_9h :: datetime where
  "at_9h = \<lparr>year = 2024, month = 5, day = 10, hour = 9, minute = 0, second = 0,
            microsecond = 0\<rparr>"

definition at_11h30 :: datetime where
  "at_11h30 = \<lparr>year = 2024, month = 5, day = 10, hour = 11, minute = 30, second = 0,
               microsecond = 0\<rparr>"

text \<open>
  The payroll scenario: employee \<open>E1\<close> at 100 per hour, and \<open>E2\<close> with no rate yet. On
  10 May 2024 \<open>E1\<close> has checked in at 8:00 and again at 9:00 and \<open>E2\<close> at 8:00
  (\<open>db_E1_open\<close>); the checkout of \<open>E1\<close> at 11:30 gives \<open>db_E1_checked_out\<close>. In
  \<open>db_E1\<close> the sessions of \<open>E1\<close> are closed: one of 30 April and one of 10 May,
  9:00 to 11:30. \<open>db_future\<close> and \<open>db_next_month\<close> hold one closed session dated
  after the clock reading used with them.
\<close>

definition employee_E1 :: employee where
  "employee_E1 =
     \<lparr>employee_id = ''E1'', full_name = ''Asha'', contact_number = [], email = [],
      aadhar = [], dob = ''1990-01-01'', address = [], photo = None, aadhar_photo = None,
      signature_photo = None, role = ''Employee'', password = ''pw'',
      assigned_client_id = Some ''C1'', rate_per_hour = Some 100\<rparr>"

definition employee_E2 :: employee where
  "employee_E2 = employee_E1\<lparr>employee_id := ''E2'', full_name := ''Ravi'',
     assigned_client_id := None, rate_per_hour := None\<rparr>"

definition staff :: "string \<rightharpoonup> employee" where
  "staff = [''E1'' \<mapsto> employee_E1, ''E2'' \<mapsto> employee_E2]"

definition open_row :: "nat \<Rightarrow> string \<Rightarrow> datetime \<Rightarrow> attendance_row" where
  "open_row n eid t =
     \<lparr>att_id = n, att_employee_id = eid, check_in_time = t, check_in_location = None,
      check_in_selfie = [], check_out_time = None, check_out_location = None,
      working_hours = None\<rparr>"

definition at_8h :: datetime where
  "at_8h = \<lparr>year = 2024, month = 5, day = 10, hour = 8, minute = 0, second = 0,
            microsecond = 0\<rparr>"

definition db_E1_open :: db where
  "db_E1_open = init_db\<lparr>employees := staff,
      attendance := [open_row 1 ''E1'' at_8h, open_row 2 ''E2'' at_8h, open_row 3 ''E1'' at_9h],
      attendance_seq := 3\<rparr>"

definition db_E1_checked_out :: db where
  "db_E1_checked_out = db_E1_open\<lparr>attendance :=
        [open_row 1 ''E1'' at_8h, open_row 2 ''E2'' at_8h,
         (open_row 3 ''E1'' at_9h)\<lparr>check_out_time := Some at_11h30,
            check_out_location := Some ''28.6,77.2'', working_hours := Some 2.5\<rparr>]\<rparr>"

definition closed_row ::
  "nat \<Rightarrow> string \<Rightarrow> datetime \<Rightarrow> datetime \<Rightarrow> real \<Rightarrow> attendance_row" where
  "closed_row n eid t_in t_out h =
     \<lparr>att_id = n, att_employee_id = eid, check_in_time = t_in, check_in_location = None,
      check_in_selfie = [], check_out_time = Some t_out, check_out_location = None,
      working_hours = Some h\<rparr>"

definition on_day :: "int \<Rightarrow> int \<Rightarrow> int \<Rightarrow> datetime" where
  "on_day m d h = \<lparr>year = 2024, month = m, day = d, hour = h, minute = 0, second = 0,
                   microsecond = 0\<rparr>"

definition db_E1 :: db where
  "db_E1 = init_db\<lparr>employees := staff,
      attendance := [closed_row 1 ''E1'' (on_day 4 30 9) (on_day 4 30 17) 8,
                     open_row 2 ''E2'' at_8h,
                     closed_row 3 ''E1'' at_9h at_11h30 2.5],
      attendance_seq := 3\<rparr>"

definition db_future :: db where
  "db_future = init_db\<lparr>employees := staff,
      attendance := [closed_row 1 ''E1'' (on_day 5 20 9) (on_day 5 20 11) 2],
      attendance_seq := 1\<rparr>"

definition db_next_month :: db where
  "db_next_month = init_db\<lparr>employees := staff,
      attendance := [closed_row 1 ''E1'' (on_day 6 15 9) (on_day 6 15 11) 2],
      attendance_seq := 1\<rparr>"

text \<open>
  A six-minute session of \<open>E1\<close>: the hours stored are the binary64 number written
  \<open>0.1\<close>, and the base salary at 100 per hour is 10.
\<close>

definition at_9h06 :: datetime where
  "at_9h06 = \<lparr>year = 2024, month = 5, day = 10, hour = 9, minute = 6, second = 0,
              microsecond = 0\<rparr>"

definition db_six_minutes :: db where
  "db_six_minutes = init_db\<lparr>employees := staff,
      attendance := [closed_row 1 ''E1'' at_9h at_9h06 (float_lit 0.1)],
      attendance_seq := 1\<rparr>"

text \<open>
  A client owing 1000 who pays in three parts, 333.33, 333.33 and 333.34.
\<close>

definition db_thirds :: db where
  "db_thirds = init_db\<lparr>clients :=
      [''C1'' \<mapsto> client_C1_row\<lparr>total_bill := 1000, outstanding := 1000\<rparr>]\<rparr>"

definition three_parts :: "(real \<times> datetime) list" where
  "three_parts =
     [(float_lit 333.33, at_8h), (float_lit 333.33, at_9h), (float_lit 333.34, at_11h30)]"

text \<open>
  Two check-ins of \<open>E1\<close> between which the clock was set back: the first reads 9:00, the
  second 8:00.
\<close>

definition db_clock_back :: db where
  "db_clock_back =
     snd (check_in_attendance
            (snd (check_in_attendance (init_db\<lparr>employees := staff\<rparr>) ''E1'' [] at_9h None))
            ''E1'' [] at_8h None)"

text \<open>The columns of an installment that the caller supplies, without the generated id.\<close>

definition inst_cols :: "installment \<Rightarrow> string \<times> real \<times> datetime" where
  "inst_cols i = (inst_client_id i, amount_paid i, timestamp i)"

section \<open>Binary64 rounding\<close>

text \<open>
  Rounding to an integer moves a number by at most a half; normalising keeps the product
  of significand and scale; so \<open>round64\<close> moves a number of normal magnitude by at most
  the fraction \<open>2^-53\<close> of it.
\<close>

lemma round_half_even_error: "\<bar>of_int (round_half_even m) - m\<bar> \<le> 1 / 2"
proof -
  define f where "f = \<lfloor>m\<rfloor>"
  define d where "d = m - of_int f"
  have d: "0 \<le> d" "d < 1" unfolding d_def f_def by linarith+
  have m: "m = of_int f + d" by (simp add: d_def)
  have rd: "round_half_even m =
      (if d < 1 / 2 then f else if 1 / 2 < d then f + 1 else if even f then f else f + 1)"
    unfolding round_half_even_def Let_def d_def f_def ..
  consider "d < 1 / 2" | "1 / 2 < d" | "d = 1 / 2" by linarith
  then show ?thesis
  proof cases
    case 1
    then have "round_half_even m = f" by (simp add: rd)
    then show ?thesis using 1 d m by simp
  next
    case 2
    then have "round_half_even m = f + 1" by (simp add: rd)
    then show ?thesis using 2 d m by simp
  next
    case 3
    then have "round_half_even m = f \<or> round_half_even m = f + 1" by (simp add: rd)
    then show ?thesis using 3 m by (elim disjE) simp_all
  qed
qed

lemma normalise_invariant:
  "normalise n m s = (m', s') \<Longrightarrow> m' * s' = m * s \<and> (0 < s \<longrightarrow> 0 < s')"
proof (induction n arbitrary: m s)
  case 0
  then show ?case by simp
next
  case (Suc n)
  consider "2 ^ 53 \<le> m" | "\<not> 2 ^ 53 \<le> m" "m < 2 ^ 52" | "\<not> 2 ^ 53 \<le> m" "\<not> m < 2 ^ 52"
    by blast
  then show ?case
  proof cases
    case 1
    with Suc.prems have "normalise n (m / 2) (s * 2) = (m', s')" by simp
    from Suc.IH [OF this] show ?thesis by simp
  next
    case 2
    with Suc.prems have "normalise n (m * 2) (s / 2) = (m', s')" by simp
    from Suc.IH [OF this] show ?thesis by simp
  next
    case 3
    with Suc.prems show ?thesis by simp
  qed
qed

lemma normalise_range:
  assumes "m < 2 ^ 53 * 2 ^ n" "2 ^ 52 \<le> m * 2 ^ n"
  shows "2 ^ 52 \<le> fst (normalise n m s) \<and> fst (normalise n m s) < 2 ^ 53"
  using assms
proof (induction n arbitrary: m s)
  case 0
  then show ?case by simp
next
  case (Suc n)
  consider "2 ^ 53 \<le> m" | "\<not> 2 ^ 53 \<le> m" "m < 2 ^ 52" | "\<not> 2 ^ 53 \<le> m" "\<not> m < 2 ^ 52"
    by blast
  then show ?case
  proof cases
    case 1
    have a: "m / 2 < 2 ^ 53 * 2 ^ n" using Suc.prems(1) by simp
    have "(2::real) ^ 52 * 1 \<le> (m / 2) * 2 ^ n"
      using 1 by (intro mult_mono) simp_all
    then have b: "2 ^ 52 \<le> (m / 2) * 2 ^ n" by simp
    from Suc.IH [OF a b] 1 show ?thesis by simp
  next
    case 2
    have t: "1 \<le> (2::real) ^ n" by simp
    have "m * 2 < 2 ^ 53 * 1" using 2(2) by simp
    also have "\<dots> \<le> 2 ^ 53 * 2 ^ n" by (rule mult_left_mono [OF t]) simp
    finally have a: "m * 2 < 2 ^ 53 * 2 ^ n" .
    have b: "2 ^ 52 \<le> (m * 2) * 2 ^ n" using Suc.prems(2) by (simp add: mult.assoc)
    from Suc.IH [OF a b] 2 show ?thesis by simp
  next
    case 3
    then show ?thesis by simp
  qed
qed

lemma round64_pos_error:
  assumes "1 / 2 ^ 1022 \<le> x" "x < 2 ^ 1024"
  shows "\<bar>round64_pos x - x\<bar> \<le> x / 2 ^ 53"
proof -
  define P :: real where "P = 2 ^ 1022"
  have P: "0 < P" by (simp add: P_def)
  have split: "(2::real) ^ 1074 = 2 ^ 52 * P"
    unfolding P_def power_add [symmetric] by simp
  have "1 / P \<le> x" using assms(1) unfolding P_def .
  then have "1 \<le> x * P" using P by (simp only: pos_divide_le_eq)
  then have "(2::real) ^ 52 * 1 \<le> 2 ^ 52 * (x * P)" by (intro mult_left_mono) simp_all
  then have lo: "2 ^ 52 \<le> x * 2 ^ 1074" unfolding split by (simp add: ac_simps)
  have "(2::real) ^ 1024 \<le> 2 ^ (53 + 1074)" by (intro power_increasing) simp_all
  then have hi: "x < 2 ^ 53 * 2 ^ 1074" using assms(2) unfolding power_add by linarith
  obtain m s where ms: "normalise 1074 x 1 = (m, s)" by (cases "normalise 1074 x 1")
  from normalise_invariant [OF ms] have inv: "m * s = x" and s: "0 < s" by simp_all
  from normalise_range [OF hi lo, of 1] ms have m: "2 ^ 52 \<le> m" "m < 2 ^ 53" by simp_all
  have r: "round64_pos x = of_int (round_half_even m) * s"
    by (simp add: round64_pos_def ms)
  have "round64_pos x - x = (of_int (round_half_even m) - m) * s"
    using r inv by (simp add: left_diff_distrib)
  then have "\<bar>round64_pos x - x\<bar> = \<bar>of_int (round_half_even m) - m\<bar> * s"
    using s by (simp add: abs_mult)
  also have "\<dots> \<le> (1 / 2) * s"
    using round_half_even_error [of m] s by (intro mult_right_mono) simp_all
  also have "\<dots> \<le> (m / 2 ^ 52) * s / 2"
  proof -
    have "1 \<le> m / 2 ^ 52" using m(1) by simp
    then have "1 * s \<le> (m / 2 ^ 52) * s" using s by (intro mult_right_mono) simp_all
    then show ?thesis by simp
  qed
  also have "\<dots> = x / 2 ^ 53" unfolding inv [symmetric] by simp
  finally show ?thesis .
qed

lemma round64_error:
  assumes "normal_range x"
  shows "\<bar>round64 x - x\<bar> \<le> \<bar>x\<bar> / 2 ^ 53"
proof (cases "x < 0")
  case True
  then have "\<bar>round64_pos (- x) - (- x)\<bar> \<le> (- x) / 2 ^ 53"
    using assms by (intro round64_pos_error) (simp_all add: normal_range_def)
  moreover have "round64 x = - round64_pos (- x)" using True by (simp add: round64_def)
  ultimately show ?thesis using True by simp
next
  case False
  moreover have "x \<noteq> 0" using assms by (auto simp add: normal_range_def)
  ultimately have x: "0 < x" by simp
  then have "\<bar>round64_pos x - x\<bar> \<le> x / 2 ^ 53"
    using assms by (intro round64_pos_error) (simp_all add: normal_range_def)
  moreover have "round64 x = round64_pos x" using x by (simp add: round64_def)
  ultimately show ?thesis using x by simp
qed

lemma round64_0 [simp]: "round64 0 = 0"
  by (simp add: round64_def)

text \<open>
  A binary64 number with a numeral significand is evaluated by unfolding \<open>normalise\<close>
  step by step.
\<close>

lemma normalise_numeral:
  "normalise (numeral k) m s =
     (if 2 ^ 53 \<le> m then normalise (pred_numeral k) (m / 2) (s * 2)
      else if m < 2 ^ 52 then normalise (pred_numeral k) (m * 2) (s / 2)
      else (m, s))"
  unfolding numeral_eq_Suc [of k] by (rule normalise.simps(2))

lemmas round64_eval =
  round64_def round64_pos_def normalise_numeral round_half_even_def Let_def

lemma float_lit_012: "float_lit 0.12 = 1080863910568919 / 9007199254740992"
  by (simp add: float_lit_def round64_eval)

lemma float_lit_013: "float_lit 0.13 = 1170935903116329 / 9007199254740992"
  by (simp add: float_lit_def round64_eval)

lemma float_lit_005: "float_lit 0.05 = 3602879701896397 / 72057594037927936"
  by (simp add: float_lit_def round64_eval)

lemma float_lit_083: "float_lit 0.83 = 7475975381435023 / 9007199254740992"
  by (simp add: float_lit_def round64_eval)

lemma normal_rangeI:
  assumes "1 / 2 ^ 1000 \<le> b" "b \<le> 2 ^ 1000" "b / 64 \<le> \<bar>x\<bar>" "\<bar>x\<bar> \<le> 2 * b"
  shows "normal_range x"
proof -
  have "(1::real) / 2 ^ 1022 \<le> (1 / 2 ^ 1000) / 64" by simp
  also have "\<dots> \<le> b / 64" using assms(1) by simp
  finally have lo: "1 / 2 ^ 1022 \<le> \<bar>x\<bar>" using assms(3) by simp
  have "2 * b \<le> 2 * 2 ^ 1000" using assms(2) by simp
  also have "\<dots> < (2::real) ^ 1024" by simp
  finally have "\<bar>x\<bar> < 2 ^ 1024" using assms(4) by simp
  with lo show ?thesis by (simp add: normal_range_def)
qed

lemma float_mul_0 [simp]: "float_mul a 0 = 0" "float_mul 0 a = 0"
  by (simp_all add: float_mul_def)

lemma float_add_0_0 [simp]: "float_add 0 0 = 0"
  by (simp add: float_add_def)

lemma float_sub_0_0 [simp]: "float_sub 0 0 = 0"
  by (simp add: float_sub_def)

text \<open>
  The error of the salary formula. With \<open>B\<close> of a magnitude between \<open>2^-1000\<close> and
  \<open>2^1000\<close> every intermediate result is of normal magnitude, and the roundings of
  the two literals, the two products, the sum and the difference add up to less than
  \<open>\<bar>B\<bar> / 2^52\<close>.
\<close>

lemma float_mul_lit_error:
  assumes lo: "1 / 2 ^ 1000 \<le> \<bar>B\<bar>" and hi: "\<bar>B\<bar> \<le> 2 ^ 1000"
    and c: "1 / 64 \<le> c" "c \<le> 2"
  shows "\<bar>float_mul c B - c * B\<bar> \<le> c * \<bar>B\<bar> / 2 ^ 53"
proof -
  have abs: "\<bar>c * B\<bar> = c * \<bar>B\<bar>" using c by (simp add: abs_mult)
  have "\<bar>B\<bar> / 64 \<le> c * \<bar>B\<bar>"
    using mult_right_mono [OF c(1), of "\<bar>B\<bar>"] by simp
  moreover have "c * \<bar>B\<bar> \<le> 2 * \<bar>B\<bar>"
    using mult_right_mono [OF c(2), of "\<bar>B\<bar>"] by simp
  ultimately have "normal_range (c * B)"
    using normal_rangeI [OF lo hi, of "c * B"] abs by simp
  from round64_error [OF this] show ?thesis
    by (simp only: float_mul_def abs)
qed

lemma rb1_error:
  assumes lo: "1 / 2 ^ 1000 \<le> \<bar>B\<bar>" and hi: "\<bar>B\<bar> \<le> 2 ^ 1000"
  shows "\<bar>float_mul (float_lit 0.12) B - 0.12 * B\<bar> \<le> \<bar>B\<bar> / 2 ^ 55"
proof -
  define c :: real where "c = 1080863910568919 / 9007199254740992"
  have c: "1 / 64 \<le> c" "c \<le> 2" by (simp_all add: c_def)
  have e: "\<bar>float_mul c B - c * B\<bar> \<le> c * \<bar>B\<bar> / 2 ^ 53"
    by (rule float_mul_lit_error [OF lo hi c])
  have d: "\<bar>c * B - 0.12 * B\<bar> = \<bar>c - 0.12\<bar> * \<bar>B\<bar>"
    by (simp add: abs_mult [symmetric] algebra_simps)
  have "\<bar>c - 0.12\<bar> = 0.12 - c" by (simp add: c_def)
  with d have d': "\<bar>c * B - 0.12 * B\<bar> = (0.12 - c) * \<bar>B\<bar>" by simp
  have k: "c / 2 ^ 53 + (0.12 - c) \<le> 1 / 2 ^ 55" by (simp add: c_def)
  have "c * \<bar>B\<bar> / 2 ^ 53 + (0.12 - c) * \<bar>B\<bar> = (c / 2 ^ 53 + (0.12 - c)) * \<bar>B\<bar>"
    by (simp add: algebra_simps)
  also have "\<dots> \<le> (1 / 2 ^ 55) * \<bar>B\<bar>"
    by (rule mult_right_mono [OF k]) simp
  finally have s: "c * \<bar>B\<bar> / 2 ^ 53 + (0.12 - c) * \<bar>B\<bar> \<le> \<bar>B\<bar> / 2 ^ 55" by simp
  have "\<bar>float_mul c B - 0.12 * B\<bar> \<le> \<bar>float_mul c B - c * B\<bar> + \<bar>c * B - 0.12 * B\<bar>"
    by linarith
  also have "\<dots> \<le> c * \<bar>B\<bar> / 2 ^ 53 + (0.12 - c) * \<bar>B\<bar>"
    using e d' by linarith
  also note s
  finally show ?thesis by (simp only: float_lit_012 c_def)
qed

lemma rb2_error:
  assumes lo: "1 / 2 ^ 1000 \<le> \<bar>B\<bar>" and hi: "\<bar>B\<bar> \<le> 2 ^ 1000"
  shows "\<bar>float_mul (float_lit 0.13) B - 0.13 * B\<bar> \<le> \<bar>B\<bar> / 2 ^ 55"
proof -
  define c :: real where "c = 1170935903116329 / 9007199254740992"
  have c: "1 / 64 \<le> c" "c \<le> 2" by (simp_all add: c_def)
  have e: "\<bar>float_mul c B - c * B\<bar> \<le> c * \<bar>B\<bar> / 2 ^ 53"
    by (rule float_mul_lit_error [OF lo hi c])
  have d: "\<bar>c * B - 0.13 * B\<bar> = \<bar>c - 0.13\<bar> * \<bar>B\<bar>"
    by (simp add: abs_mult [symmetric] algebra_simps)
  have "\<bar>c - 0.13\<bar> = c - 0.13" by (simp add: c_def)
  with d have d': "\<bar>c * B - 0.13 * B\<bar> = (c - 0.13) * \<bar>B\<bar>" by simp
  have k: "c / 2 ^ 53 + (c - 0.13) \<le> 1 / 2 ^ 55" by (simp add: c_def)
  have "c * \<bar>B\<bar> / 2 ^ 53 + (c - 0.13) * \<bar>B\<bar> = (c / 2 ^ 53 + (c - 0.13)) * \<bar>B\<bar>"
    by (simp add: algebra_simps)
  also have "\<dots> \<le> (1 / 2 ^ 55) * \<bar>B\<bar>"
    by (rule mult_right_mono [OF k]) simp
  finally have s: "c * \<bar>B\<bar> / 2 ^ 53 + (c - 0.13) * \<bar>B\<bar> \<le> \<bar>B\<bar> / 2 ^ 55" by simp
  have "\<bar>float_mul c B - 0.13 * B\<bar> \<le> \<bar>float_mul c B - c * B\<bar> + \<bar>c * B - 0.13 * B\<bar>"
    by linarith
  also have "\<dots> \<le> c * \<bar>B\<bar> / 2 ^ 53 + (c - 0.13) * \<bar>B\<bar>"
    using e d' by linarith
  also note s
  finally show ?thesis by (simp only: float_lit_013 c_def)
qed

lemma ins1_error:
  assumes lo: "1 / 2 ^ 1000 \<le> \<bar>B\<bar>" and hi: "\<bar>B\<bar> \<le> 2 ^ 1000"
  shows "\<bar>float_mul (float_lit 0.05) B - 0.05 * B\<bar> \<le> \<bar>B\<bar> / 2 ^ 56"
proof -
  define c :: real where "c = 3602879701896397 / 72057594037927936"
  have c: "1 / 64 \<le> c" "c \<le> 2" by (simp_all add: c_def)
  have e: "\<bar>float_mul c B - c * B\<bar> \<le> c * \<bar>B\<bar> / 2 ^ 53"
    by (rule float_mul_lit_error [OF lo hi c])
  have d: "\<bar>c * B - 0.05 * B\<bar> = \<bar>c - 0.05\<bar> * \<bar>B\<bar>"
    by (simp add: abs_mult [symmetric] algebra_simps)
  have "\<bar>c - 0.05\<bar> = c - 0.05" by (simp add: c_def)
  with d have d': "\<bar>c * B - 0.05 * B\<bar> = (c - 0.05) * \<bar>B\<bar>" by simp
  have k: "c / 2 ^ 53 + (c - 0.05) \<le> 1 / 2 ^ 56" by (simp add: c_def)
  have "c * \<bar>B\<bar> / 2 ^ 53 + (c - 0.05) * \<bar>B\<bar> = (c / 2 ^ 53 + (c - 0.05)) * \<bar>B\<bar>"
    by (simp add: algebra_simps)
  also have "\<dots> \<le> (1 / 2 ^ 56) * \<bar>B\<bar>"
    by (rule mult_right_mono [OF k]) simp
  finally have s: "c * \<bar>B\<bar> / 2 ^ 53 + (c - 0.05) * \<bar>B\<bar> \<le> \<bar>B\<bar> / 2 ^ 56" by simp
  have "\<bar>float_mul c B - 0.05 * B\<bar> \<le> \<bar>float_mul c B - c * B\<bar> + \<bar>c * B - 0.05 * B\<bar>"
    by linarith
  also have "\<dots> \<le> c * \<bar>B\<bar> / 2 ^ 53 + (c - 0.05) * \<bar>B\<bar>"
    using e d' by linarith
  also note s
  finally show ?thesis by (simp only: float_lit_005 c_def)
qed

lemma actual_salary_error:
  assumes lo: "1 / 2 ^ 1000 \<le> \<bar>B\<bar>" and hi: "\<bar>B\<bar> \<le> 2 ^ 1000"
  shows "\<bar>float_sub B (float_add (float_mul (float_lit 0.12) B) (float_mul (float_lit 0.05) B))
           - 0.83 * B\<bar> \<le> \<bar>B\<bar> / 2 ^ 52"
proof -
  define r where "r = float_mul (float_lit 0.12) B"
  define i where "i = float_mul (float_lit 0.05) B"
  define b where "b = \<bar>B\<bar>"
  define u :: real where "u = b / 2 ^ 56"
  have b0: "0 \<le> b" by (simp add: b_def)
  have bu: "b = 72057594037927936 * u" by (simp add: u_def)
  have u0: "0 \<le> u" using b0 by (simp add: u_def)
  have r: "\<bar>r - 12 / 100 * B\<bar> \<le> 2 * u"
    using rb1_error [OF lo hi] by (simp add: r_def u_def b_def)
  have i: "\<bar>i - 5 / 100 * B\<bar> \<le> u"
    using ins1_error [OF lo hi] by (simp add: i_def u_def b_def)
  have t: "\<bar>(r + i) - 17 / 100 * B\<bar> \<le> 3 * u" using r i by linarith
  have B: "\<bar>B\<bar> = 72057594037927936 * u" using bu by (simp add: b_def)
  have t_lo: "b / 64 \<le> \<bar>r + i\<bar>" using t B bu u0 by linarith
  have t_hi: "\<bar>r + i\<bar> \<le> b / 4" using t B bu u0 by linarith
  have "normal_range (r + i)"
    using normal_rangeI [OF lo hi, of "r + i"] t_lo t_hi b0 by (simp add: b_def)
  from round64_error [OF this]
  have "\<bar>float_add r i - (r + i)\<bar> \<le> \<bar>r + i\<bar> / 2 ^ 53" by (simp only: float_add_def)
  also have "\<dots> \<le> (b / 4) / 2 ^ 53" using t_hi by (simp add: divide_right_mono)
  also have "\<dots> = 2 * u" by (simp add: u_def)
  finally have s: "\<bar>float_add r i - (r + i)\<bar> \<le> 2 * u" .
  define s where "s = float_add r i"
  have s': "\<bar>s - 17 / 100 * B\<bar> \<le> 5 * u" unfolding s_def using s t by linarith
  have d: "\<bar>(B - s) - 83 / 100 * B\<bar> \<le> 5 * u" using s' by linarith
  have d_lo: "b / 64 \<le> \<bar>B - s\<bar>" using d B bu u0 by linarith
  have d_hi: "\<bar>B - s\<bar> \<le> b" using d B bu u0 by linarith
  have "normal_range (B - s)"
    using normal_rangeI [OF lo hi, of "B - s"] d_lo d_hi b0 by (simp add: b_def)
  from round64_error [OF this]
  have "\<bar>float_sub B s - (B - s)\<bar> \<le> \<bar>B - s\<bar> / 2 ^ 53" by (simp only: float_sub_def)
  also have "\<dots> \<le> b / 2 ^ 53" using d_hi by (simp add: divide_right_mono)
  also have "\<dots> = 8 * u" by (simp add: u_def)
  finally have a: "\<bar>float_sub B s - (B - s)\<bar> \<le> 8 * u" .
  have "\<bar>float_sub B s - 83 / 100 * B\<bar> \<le> 16 * u" using a d u0 by linarith
  also have "16 * u = \<bar>B\<bar> / 2 ^ 52" by (simp add: u_def b_def)
  finally have "\<bar>float_sub B s - 83 / 100 * B\<bar> \<le> \<bar>B\<bar> / 2 ^ 52" .
  moreover have "(0.83::real) = 83 / 100" by simp
  ultimately show ?thesis by (simp only: s_def r_def i_def)
qed

section \<open>Billing ledger\<close>

lemma register_client_C1: "register_client init_db client_C1 = Inr db_C1"
  by (simp add: register_client_def init_db_def client_C1_def db_C1_def client_C1_row_def)

lemma record_installment_present:
  "clients s cid = Some r \<Longrightarrow>
   clients (record_installment s cid a t) =
     (clients s)(cid \<mapsto> r\<lparr>outstanding := float_sub (outstanding r) a\<rparr>)"
  by (simp add: record_installment_def Let_def)

lemma record_installment_absent:
  "clients s cid = None \<Longrightarrow> clients (record_installment s cid a t) = clients s"
  by (simp add: record_installment_def Let_def)

lemma record_installment_installments:
  "installments (record_installment s cid a t) =
     installments s @ [\<lparr>inst_id = installments_seq s + 1, inst_client_id = cid,
                        amount_paid = a, timestamp = t\<rparr>]"
  by (simp add: record_installment_def Let_def split: option.split)

lemma record_installment_other_tables:
  "employees (record_installment s cid a t) = employees s
   \<and> attendance (record_installment s cid a t) = attendance s"
  by (simp add: record_installment_def Let_def split: option.split)

text \<open>
  C7. \<open>register_client\<close> with a client id not yet in the table succeeds, and the row it
  creates has \<open>outstanding\<close> equal to the supplied \<open>total_bill\<close>; the dictionary it takes
  has no field for the outstanding amount. No other client row changes.
\<close>

theorem register_client_outstanding:
  assumes "client_id c \<notin> dom (clients s)"
  shows "\<exists>s' row. register_client s c = Inr s' \<and> clients s' (client_id c) = Some row
           \<and> outstanding row = total_bill c \<and> total_bill row = total_bill c
           \<and> (\<forall>k. k \<noteq> client_id c \<longrightarrow> clients s' k = clients s k)"
  using assms by (simp add: register_client_def)

theorem register_client_outstanding_witness:
  "client_id (client_C1\<lparr>total_bill := 1000\<rparr>) \<notin> dom (clients init_db)
   \<and> (\<exists>s' row. register_client init_db (client_C1\<lparr>total_bill := 1000\<rparr>) = Inr s'
         \<and> clients s' ''C1'' = Some row \<and> outstanding row = 1000)"
  using register_client_outstanding [of "client_C1\<lparr>total_bill := 1000\<rparr>" init_db]
  by (auto simp add: client_C1_def init_db_def)

lemma foldl_float_sub_exact:
  "(\<forall>k < length as. representable (b - sum_list (take (Suc k) as))) \<Longrightarrow>
   foldl float_sub b as = b - sum_list as"
proof (induction as arbitrary: b)
  case Nil
  then show ?case by simp
next
  case (Cons a as)
  from Cons.prems [rule_format, of 0] have "representable (b - a)" by simp
  then have first: "float_sub b a = b - a" by (simp add: float_sub_def representable_def)
  have "\<forall>k < length as. representable ((b - a) - sum_list (take (Suc k) as))"
  proof (intro allI impI)
    fix k assume "k < length as"
    with Cons.prems [rule_format, of "Suc k"]
    show "representable ((b - a) - sum_list (take (Suc k) as))"
      by (simp add: algebra_simps)
  qed
  from Cons.IH [OF this] have "foldl float_sub (b - a) as = (b - a) - sum_list as" .
  then show ?case by (simp add: first)
qed

text \<open>
  C2, as the code has it. For a client present in the table, \<open>n\<close> calls of
  \<open>record_installment\<close> append one installment row per call, in the order of the calls,
  and leave the client's row as it was but for \<open>outstanding\<close>, which is the result of
  subtracting the amounts one after the other, each difference rounded to binary64.
  Nothing bounds the result below, so an overpayment makes it negative. Where every
  difference on the way is a binary64 number, nothing is rounded, and the result is the
  outstanding before less the sum of the amounts.
\<close>

theorem record_installments_outstanding:
  assumes "clients s cid = Some r"
  shows "clients (record_installments s cid calls) cid =
           Some (r\<lparr>outstanding := foldl float_sub (outstanding r) (map fst calls)\<rparr>)
         \<and> map inst_cols (installments (record_installments s cid calls)) =
             map inst_cols (installments s) @ map (\<lambda>(a, t). (cid, a, t)) calls
         \<and> length (installments (record_installments s cid calls)) =
             length (installments s) + length calls
         \<and> ((\<forall>k < length calls.
                representable (outstanding r - sum_list (map fst (take (Suc k) calls))))
            \<longrightarrow> foldl float_sub (outstanding r) (map fst calls) =
                  outstanding r - sum_list (map fst calls))"
proof -
  have rows: "clients (record_installments s cid calls) cid =
           Some (r\<lparr>outstanding := foldl float_sub (outstanding r) (map fst calls)\<rparr>)
         \<and> map inst_cols (installments (record_installments s cid calls)) =
             map inst_cols (installments s) @ map (\<lambda>(a, t). (cid, a, t)) calls
         \<and> length (installments (record_installments s cid calls)) =
             length (installments s) + length calls"
    using assms
  proof (induction calls arbitrary: s r)
    case Nil
    then show ?case by simp
  next
    case (Cons call calls)
    obtain a t where call: "call = (a, t)" by (cases call)
    let ?s1 = "record_installment s cid a t"
    have s1: "clients ?s1 cid = Some (r\<lparr>outstanding := float_sub (outstanding r) a\<rparr>)"
      using Cons.prems by (simp add: record_installment_present)
    from Cons.IH [OF s1] show ?case
      by (simp add: call record_installment_installments inst_cols_def)
  qed
  have "foldl float_sub (outstanding r) (map fst calls) =
          outstanding r - sum_list (map fst calls)"
    if "\<forall>k < length calls.
          representable (outstanding r - sum_list (map fst (take (Suc k) calls)))"
    using that foldl_float_sub_exact [of "map fst calls" "outstanding r"]
    by (simp add: take_map)
  with rows show ?thesis by blast
qed

theorem record_installments_outstanding_witness:
  "clients db_C1 ''C1'' = Some client_C1_row \<and> outstanding client_C1_row = 5000
   \<and> representable 4000 \<and> representable 2500 \<and> representable (- 500)
   \<and> map_option outstanding
       (clients (record_installments db_C1 ''C1''
                  [(1000, at_9h), (1500, at_11h30), (3000, at_11h30)]) ''C1'')
     = Some (- 500)
   \<and> length (installments (record_installments db_C1 ''C1''
                  [(1000, at_9h), (1500, at_11h30), (3000, at_11h30)])) = 3"
proof -
  let ?calls = "[(1000 :: real, at_9h), (1500, at_11h30), (3000, at_11h30)]"
  have c: "clients db_C1 ''C1'' = Some client_C1_row"
    by (simp add: db_C1_def init_db_def)
  have o: "outstanding client_C1_row = 5000"
    by (simp add: client_C1_row_def)
  have r1: "representable 4000" by (simp add: representable_def round64_eval)
  have r2: "representable 2500" by (simp add: representable_def round64_eval)
  have r3: "representable (- 500)" by (simp add: representable_def round64_eval)
  have h: "\<forall>k < length ?calls.
             representable (outstanding client_C1_row
                            - sum_list (map fst (take (Suc k) ?calls)))"
  proof (intro allI impI)
    fix k assume "k < length ?calls"
    then consider "k = 0" | "k = 1" | "k = 2" by fastforce
    then show "representable (outstanding client_C1_row
                              - sum_list (map fst (take (Suc k) ?calls)))"
      using r1 r2 r3 by cases (simp_all add: o)
  qed
  note result = record_installments_outstanding [OF c, of ?calls]
  from result h
  have exact: "foldl float_sub (outstanding client_C1_row) (map fst ?calls) =
                 outstanding client_C1_row - sum_list (map fst ?calls)"
    by blast
  from result
  have "clients (record_installments db_C1 ''C1'' ?calls) ''C1'' =
          Some (client_C1_row\<lparr>outstanding :=
                  foldl float_sub (outstanding client_C1_row) (map fst ?calls)\<rparr>)"
    by (rule conjunct1)
  then have "map_option outstanding (clients (record_installments db_C1 ''C1'' ?calls) ''C1'')
               = Some (- 500)"
    unfolding exact by (simp add: o)
  moreover from result
  have "length (installments (record_installments db_C1 ''C1'' ?calls)) =
          length (installments db_C1) + length ?calls"
    by blast
  then have "length (installments (record_installments db_C1 ''C1'' ?calls)) = 3"
    by (simp add: db_C1_def init_db_def)
  ultimately show ?thesis using c o r1 r2 r3 by (intro conjI)
qed

text \<open>
  C2, as the specification states it, fails. A client owing 1000 pays 333.33, 333.33 and
  333.34. The outstanding after the three calls is \<open>2^-43\<close>. The outstanding before
  less the sum of the three amounts is \<open>2^-44\<close> when the sum and the difference are
  exact, and 0 when they are computed in binary64 as the outstanding was.
\<close>

theorem record_installments_outstanding_counterexample:
  "map_option outstanding (clients db_thirds ''C1'') = Some 1000
   \<and> map_option outstanding (clients (record_installments db_thirds ''C1'' three_parts) ''C1'')
       = Some (1 / 2 ^ 43)
   \<and> 1000 - sum_list (map fst three_parts) = 1 / 2 ^ 44
   \<and> float_sub 1000 (foldl float_add 0 (map fst three_parts)) = 0"
  by (simp add: db_thirds_def three_parts_def init_db_def client_C1_row_def
      record_installment_def Let_def float_lit_def float_sub_def float_add_def round64_eval)

text \<open>
  C9, as the code has it. With a client id that is not in the table,
  \<open>record_installment\<close> reports nothing to its caller (it has no result value on any
  path) and leaves the clients table, and with it every outstanding balance, as it was.
\<close>

theorem record_installment_absent_client:
  assumes "clients s cid = None"
  shows "clients (record_installment s cid amount now) = clients s"
  using assms by (rule record_installment_absent)

theorem record_installment_absent_client_witness:
  "clients db_C1 ''ghost'' = None
   \<and> clients (record_installment db_C1 ''ghost'' 100 at_9h) = clients db_C1"
  using record_installment_absent_client [of db_C1 "''ghost''" 100 at_9h]
  by (simp add: db_C1_def init_db_def)

text \<open>
  C9, as the specification states it, fails: on a database without the client
  \<open>ghost\<close>, the call records an installment row against that id.
\<close>

theorem record_installment_absent_counterexample:
  "clients init_db ''ghost'' = None
   \<and> installments (record_installment init_db ''ghost'' 100 at_9h) =
       [\<lparr>inst_id = 1, inst_client_id = ''ghost'', amount_paid = 100, timestamp = at_9h\<rparr>]"
  by (simp add: record_installment_def init_db_def)

section \<open>Calendar arithmetic\<close>












lemma month_disj:
  fixes m :: int
  assumes "1 \<le> m" "m \<le> 12"
  shows "m = 1 \<or> m = 2 \<or> m = 3 \<or> m = 4 \<or> m = 5 \<or> m = 6 \<or> m = 7 \<or> m = 8
    \<or> m = 9 \<or> m = 10 \<or> m = 11 \<or> m = 12"
  using assms by presburger

lemma month_cases:
  fixes m :: int
  assumes "1 \<le> m" "m \<le> 12"
  obtains "m = 1" | "m = 2" | "m = 3" | "m = 4" | "m = 5" | "m = 6" | "m = 7" | "m = 8"
    | "m = 9" | "m = 10" | "m = 11" | "m = 12"
  using month_disj [OF assms] by blast

















section \<open>The stored form of a timestamp\<close>

text \<open>
  The bytewise order of the ISO strings, which is what \<open>ORDER BY check_in_time\<close> and
  \<open>check_in_time >= ?\<close> use, is the order of \<open>dt_key\<close>. A string without a fraction is
  a proper prefix of the same second with one, and sorts before it.
\<close>

lemma of_char_digit:
  assumes "d < 10"
  shows "(of_char (digit d) :: nat) = 48 + d"
proof -
  from assms have "d \<in> {9, 8, 7, 6, 5, 4, 3, 2, 1, 0}"
    by (simp only: insert_iff empty_iff) presburger
  then show ?thesis by (elim insertE emptyE) (simp_all add: digit_def)
qed

lemma digit_less_iff: "a < 10 \<Longrightarrow> b < 10 \<Longrightarrow> digit a < digit b \<longleftrightarrow> a < b"
  by (simp add: less_char_def of_char_digit)

lemma digit_eq_iff:
  assumes "a < 10" "b < 10"
  shows "digit a = digit b \<longleftrightarrow> a = b"
proof
  assume "digit a = digit b"
  then have "(of_char (digit a) :: nat) = of_char (digit b)" by simp
  then show "a = b" using assms by (simp add: of_char_digit)
qed simp

lemma length_zfill [simp]: "length (zfill k n) = k"
  by (induction k arbitrary: n) simp_all


lemma append_less_iff:
  fixes a b :: "'a::linorder list"
  assumes "length a = length b"
  shows "a @ x < b @ y \<longleftrightarrow> a < b \<or> a = b \<and> x < y"
  using assms
proof (induction a b rule: list_induct2)
  case Nil
  show ?case by simp
next
  case (Cons u us v vs)
  then show ?case by (cases "u = v") simp_all
qed

lemma append_eq_iff:
  assumes "length a = length b"
  shows "a @ x = b @ y \<longleftrightarrow> a = b \<and> x = y"
  using assms by simp

lemma div_mod_less_iff:
  fixes n m :: nat
  shows "n < m \<longleftrightarrow> n div 10 < m div 10 \<or> n div 10 = m div 10 \<and> n mod 10 < m mod 10"
proof -
  have n: "n = 10 * (n div 10) + n mod 10" and m: "m = 10 * (m div 10) + m mod 10"
    by simp_all
  have bn: "n mod 10 < 10" and bm: "m mod 10 < 10" by simp_all
  define qn rn qm rm where "qn = n div 10" and "rn = n mod 10" and "qm = m div 10"
    and "rm = m mod 10"
  have "10 * qn + rn < 10 * qm + rm \<longleftrightarrow> qn < qm \<or> qn = qm \<and> rn < rm"
    using bn bm unfolding rn_def [symmetric] rm_def [symmetric] by linarith
  then show ?thesis
    unfolding qn_def rn_def qm_def rm_def using n m by simp
qed


lemma div_mod_eq_iff:
  fixes n m :: nat
  shows "n = m \<longleftrightarrow> n div 10 = m div 10 \<and> n mod 10 = m mod 10"
  by (metis div_mult_mod_eq)

lemma zfill_less_iff:
  "n < 10 ^ k \<Longrightarrow> m < 10 ^ k \<Longrightarrow> zfill k n < zfill k m \<longleftrightarrow> n < m"
proof (induction k arbitrary: n m)
  case 0
  then show ?case by simp
next
  case (Suc k)
  have dn: "n div 10 < 10 ^ k" and dm: "m div 10 < 10 ^ k"
    using Suc.prems by (simp_all add: less_mult_imp_div_less mult.commute)
  have eq: "zfill k (n div 10) = zfill k (m div 10) \<longleftrightarrow> n div 10 = m div 10"
    using Suc.IH [OF dn dm] Suc.IH [OF dm dn] by (metis less_irrefl linorder_neqE_nat)
  show ?case
    by (simp add: append_less_iff Suc.IH [OF dn dm] eq digit_less_iff
        div_mod_less_iff [of n m])
qed

lemma zfill_eq_iff:
  "n < 10 ^ k \<Longrightarrow> m < 10 ^ k \<Longrightarrow> zfill k n = zfill k m \<longleftrightarrow> n = m"
proof (induction k arbitrary: n m)
  case 0
  then show ?case by simp
next
  case (Suc k)
  have dn: "n div 10 < 10 ^ k" and dm: "m div 10 < 10 ^ k"
    using Suc.prems by (simp_all add: less_mult_imp_div_less mult.commute)
  show ?case
    by (simp add: Suc.IH [OF dn dm] digit_eq_iff div_mod_eq_iff [of n m])
qed


lemma fraction_less_iff:
  assumes "0 \<le> u" "u < 1000000" "0 \<le> v" "v < 1000000"
  shows "fraction u < fraction v \<longleftrightarrow> u < v"
proof -
  have "nat u < 10 ^ 6" "nat v < 10 ^ 6" using assms by simp_all
  then have "zfill 6 (nat u) < zfill 6 (nat v) \<longleftrightarrow> nat u < nat v"
    by (rule zfill_less_iff)
  then show ?thesis using assms by (simp add: fraction_def)
qed

lemma fraction_eq_iff:
  assumes "0 \<le> u" "u < 1000000" "0 \<le> v" "v < 1000000"
  shows "fraction u = fraction v \<longleftrightarrow> u = v"
proof -
  have "nat u < 10 ^ 6" "nat v < 10 ^ 6" using assms by simp_all
  then have "zfill 6 (nat u) = zfill 6 (nat v) \<longleftrightarrow> nat u = nat v"
    by (rule zfill_eq_iff)
  then show ?thesis using assms by (auto simp add: fraction_def)
qed

lemma field_less_iff:
  assumes "0 \<le> x" "x < 10 ^ k" "0 \<le> y" "y < 10 ^ k"
  shows "zfill k (nat x) < zfill k (nat y) \<longleftrightarrow> x < y"
proof -
  have "nat x < 10 ^ k" "nat y < 10 ^ k"
    using assms by (simp_all add: nat_less_iff)
  then have "zfill k (nat x) < zfill k (nat y) \<longleftrightarrow> nat x < nat y"
    by (rule zfill_less_iff)
  then show ?thesis using assms(1) by (simp only: nat_less_eq_zless)
qed

lemma field_eq_iff:
  assumes "0 \<le> x" "x < 10 ^ k" "0 \<le> y" "y < 10 ^ k"
  shows "zfill k (nat x) = zfill k (nat y) \<longleftrightarrow> x = y"
proof -
  have "nat x < 10 ^ k" "nat y < 10 ^ k"
    using assms by (simp_all add: nat_less_iff)
  then have "zfill k (nat x) = zfill k (nat y) \<longleftrightarrow> nat x = nat y"
    by (rule zfill_eq_iff)
  then show ?thesis using assms(1,3) by (simp only: eq_nat_nat_iff)
qed


lemma days_in_month_le:
  assumes "1 \<le> m" "m \<le> 12"
  shows "days_in_month y m \<le> 31"
  using assms
  by (cases m rule: month_cases) (cases "is_leap y"; simp add: days_in_month_def)+

lemma pair_less_iff:
  fixes x y :: "'a::linorder" and u v :: "'b::order"
  shows "(x, u) < (y, v) \<longleftrightarrow> x < y \<or> x = y \<and> u < v"
  by (auto simp add: less_prod_def')

lemma dt_key_less_iff:
  "dt_key a < dt_key b \<longleftrightarrow>
     year a < year b \<or> year a = year b \<and>
    (month a < month b \<or> month a = month b \<and>
    (day a < day b \<or> day a = day b \<and>
    (hour a < hour b \<or> hour a = hour b \<and>
    (minute a < minute b \<or> minute a = minute b \<and>
    (second a < second b \<or> second a = second b \<and>
     microsecond a < microsecond b)))))"
  unfolding dt_key_def pair_less_iff ..

lemma valid_datetime_bounds:
  assumes "valid_datetime d"
  shows "0 \<le> year d" "year d < 10 ^ 4" "0 \<le> month d" "month d < 10 ^ 2"
    "0 \<le> day d" "day d < 10 ^ 2" "0 \<le> hour d" "hour d < 10 ^ 2"
    "0 \<le> minute d" "minute d < 10 ^ 2" "0 \<le> second d" "second d < 10 ^ 2"
    "0 \<le> microsecond d" "microsecond d < 1000000"
proof -
  have "day d \<le> 31"
    using assms days_in_month_le [of "month d" "year d"] by (simp add: valid_datetime_def)
  then show "day d < 10 ^ 2" by simp
qed (use assms in \<open>simp_all add: valid_datetime_def\<close>)

lemma isoformat_less_iff:
  assumes "valid_datetime a" "valid_datetime b"
  shows "isoformat a < isoformat b \<longleftrightarrow> dt_key a < dt_key b"
  unfolding isoformat_def dt_key_less_iff
  using valid_datetime_bounds [OF assms(1)] valid_datetime_bounds [OF assms(2)]
  by (simp only: append_less_iff length_zfill field_less_iff field_eq_iff
      fraction_less_iff fraction_eq_iff append_Cons append_Nil list.inject
      Cons_less_Cons simp_thms less_irrefl)

lemma zfill_numeral:
  "zfill (numeral k) n = zfill (pred_numeral k) (n div 10) @ [digit (n mod 10)]"
  unfolding numeral_eq_Suc [of k] by (rule zfill.simps(2))

lemma isoformat_at_9h: "isoformat at_9h = ''2024-05-10T09:00:00''"
  by (simp add: isoformat_def fraction_def at_9h_def zfill_numeral digit_def)

lemma isoformat_micro:
  "isoformat (at_9h\<lparr>microsecond := 1500\<rparr>) = ''2024-05-10T09:00:00.001500''"
  by (simp add: isoformat_def fraction_def at_9h_def zfill_numeral digit_def)


lemma isoformat_eq_iff:
  assumes "valid_datetime a" "valid_datetime b"
  shows "isoformat a = isoformat b \<longleftrightarrow> dt_key a = dt_key b"
  unfolding isoformat_def dt_key_def
  using valid_datetime_bounds [OF assms(1)] valid_datetime_bounds [OF assms(2)]
  by (simp only: append_eq_append_conv length_zfill field_eq_iff fraction_eq_iff
      append_Cons append_Nil list.inject prod.inject simp_thms)

theorem isoformat_le_iff:
  assumes "valid_datetime a" "valid_datetime b"
  shows "isoformat a \<le> isoformat b \<longleftrightarrow> dt_key a \<le> dt_key b"
  unfolding order_le_less [of "isoformat a"] order_le_less [of "dt_key a"]
    isoformat_less_iff [OF assms] isoformat_eq_iff [OF assms] ..

section \<open>Attendance\<close>

subsection \<open>The latest open session\<close>

lemma limit_1_None_iff: "order_by_check_in_desc_limit_1 rs = None \<longleftrightarrow> rs = []"
  by (induction rs) (auto split: option.splits)

lemma limit_1_Some:
  "order_by_check_in_desc_limit_1 rs = Some r \<Longrightarrow>
   r \<in> set rs \<and> (\<forall>x \<in> set rs. dt_key (check_in_time x) \<le> dt_key (check_in_time r))"
proof (induction rs arbitrary: r)
  case Nil
  then show ?case by simp
next
  case (Cons x xs)
  show ?case
  proof (cases "order_by_check_in_desc_limit_1 xs")
    case None
    then have "xs = []" by (simp add: limit_1_None_iff)
    with Cons.prems show ?thesis by simp
  next
    case (Some r')
    note IH = Cons.IH [OF Some]
    show ?thesis
    proof (cases "dt_key (check_in_time x) < dt_key (check_in_time r')")
      case True
      with Some Cons.prems have "r = r'" by simp
      with IH True show ?thesis by auto
    next
      case False
      with Some Cons.prems have "r = x" by simp
      moreover from False have "dt_key (check_in_time r') \<le> dt_key (check_in_time x)" by simp
      ultimately show ?thesis using IH by (auto intro: order_trans)
    qed
  qed
qed

lemma map_update_by_id:
  assumes "distinct (map att_id rs)" "i < length rs"
  shows "map (\<lambda>r. if att_id r = att_id (rs ! i) then f r else r) rs = rs[i := f (rs ! i)]"
proof (rule nth_equalityI)
  show "length (map (\<lambda>r. if att_id r = att_id (rs ! i) then f r else r) rs)
          = length (rs[i := f (rs ! i)])" by simp
next
  fix j assume "j < length (map (\<lambda>r. if att_id r = att_id (rs ! i) then f r else r) rs)"
  then have j: "j < length rs" by simp
  have "att_id (rs ! j) = att_id (rs ! i) \<longleftrightarrow> j = i"
    using assms j nth_eq_iff_index_eq [of "map att_id rs" j i] by simp
  then show "map (\<lambda>r. if att_id r = att_id (rs ! i) then f r else r) rs ! j
               = rs[i := f (rs ! i)] ! j"
    using j by (simp add: nth_list_update)
qed

subsection \<open>The primary key of attendance\<close>

lemma attendance_wf_init: "attendance_wf init_db"
  by (simp add: attendance_wf_def init_db_def)

lemma attendance_wf_check_in:
  assumes "attendance_wf s"
  shows "attendance_wf (snd (check_in_attendance s eid selfie now location))"
proof -
  have "\<forall>r \<in> set (attendance s). att_id r \<le> attendance_seq s"
    using assms by (simp add: attendance_wf_def list_all_iff)
  then have "attendance_seq s + 1 \<notin> att_id ` set (attendance s)" by fastforce
  moreover have "\<forall>r \<in> set (attendance s). att_id r \<le> attendance_seq s + 1"
    using \<open>\<forall>r \<in> set (attendance s). att_id r \<le> attendance_seq s\<close> by fastforce
  ultimately show ?thesis
    using assms by (simp add: attendance_wf_def check_in_attendance_def list_all_iff)
qed

lemma check_out_ids:
  "map att_id (attendance (snd (check_out_attendance s eid now location)))
     = map att_id (attendance s)"
  by (simp add: check_out_attendance_def Let_def comp_def split: option.split)

lemma attendance_wf_check_out:
  assumes "attendance_wf s"
  shows "attendance_wf (snd (check_out_attendance s eid now location))"
proof -
  have seq: "attendance_seq (snd (check_out_attendance s eid now location)) = attendance_seq s"
    by (simp add: check_out_attendance_def Let_def split: option.split)
  have "list_all (\<lambda>r. att_id r \<le> attendance_seq s) (attendance s)"
    using assms by (simp add: attendance_wf_def)
  then have "\<forall>n \<in> set (map att_id (attendance s)). n \<le> attendance_seq s"
    by (simp add: list_all_iff)
  then have "\<forall>n \<in> set (map att_id (attendance (snd (check_out_attendance s eid now location)))).
               n \<le> attendance_seq s"
    by (simp only: check_out_ids)
  then have "list_all (\<lambda>r. att_id r \<le> attendance_seq s)
               (attendance (snd (check_out_attendance s eid now location)))"
    by (simp add: list_all_iff)
  then show ?thesis
    using assms unfolding attendance_wf_def seq check_out_ids by simp
qed

lemma map_update_fresh_id:
  assumes "\<forall>r \<in> set rs. att_id r \<noteq> n"
  shows "map (\<lambda>r. if att_id r = n then f r else r) rs = rs"
  using assms by (induction rs) simp_all

text \<open>
  A check-in by an employee with no open session, followed by a checkout: the new row is
  the one closed, with the hours between the two clock readings, and nothing else
  changes.
\<close>

lemma check_in_then_check_out:
  assumes "open_sessions s eid = []" and "attendance_wf s"
  shows "check_out_attendance (snd (check_in_attendance s eid selfie t1 loc1)) eid t2 loc2 =
           (Inr (total_seconds (dt_sub t2 t1) / 3600, t2),
            s\<lparr>attendance := attendance s @
                 [\<lparr>att_id = attendance_seq s + 1, att_employee_id = eid,
                   check_in_time = t1, check_in_location = loc1,
                   check_in_selfie = selfie, check_out_time = Some t2,
                   check_out_location = loc2,
                   working_hours = Some (total_seconds (dt_sub t2 t1) / 3600)\<rparr>],
               attendance_seq := attendance_seq s + 1\<rparr>)"
proof -
  let ?new = "\<lparr>att_id = attendance_seq s + 1, att_employee_id = eid,
                check_in_time = t1, check_in_location = loc1,
                check_in_selfie = selfie, check_out_time = None,
                check_out_location = None, working_hours = None\<rparr>"
  let ?s1 = "snd (check_in_attendance s eid selfie t1 loc1)"
  have att: "attendance ?s1 = attendance s @ [?new]"
    by (simp add: check_in_attendance_def)
  have op: "open_sessions ?s1 eid = [?new]"
    using assms(1) by (simp add: open_sessions_def att)
  have "\<forall>r \<in> set (attendance s). att_id r \<le> attendance_seq s"
    using assms(2) by (simp add: attendance_wf_def list_all_iff)
  then have fresh: "\<forall>r \<in> set (attendance s). att_id r \<noteq> Suc (attendance_seq s)"
    by fastforce
  show ?thesis
    by (simp add: check_out_attendance_def op Let_def att map_update_fresh_id [OF fresh])
       (simp add: check_in_attendance_def map_update_fresh_id [OF fresh])
qed

subsection \<open>The scenario, evaluated\<close>

lemmas scenario_defs =
  db_E1_def db_future_def db_next_month_def db_E1_open_def init_db_def staff_def
  employee_E1_def employee_E2_def closed_row_def open_row_def on_day_def
  at_8h_def at_9h_def at_11h30_def

lemma at_simps:
  "dt_key at_8h = (2024, 5, 10, 8, 0, 0, 0)"
  "dt_key at_9h = (2024, 5, 10, 9, 0, 0, 0)"
  "dt_key at_11h30 = (2024, 5, 10, 11, 30, 0, 0)"
  by (simp_all add: dt_key_def at_8h_def at_9h_def at_11h30_def)

lemma hours_9h_11h30: "total_seconds (dt_sub at_11h30 at_9h) / 3600 = 2.5"
  by (simp add: dt_sub_def at_9h_def at_11h30_def Let_def)

lemma open_sessions_scenario:
  "open_sessions db_E1_open ''E1'' = [open_row 1 ''E1'' at_8h, open_row 3 ''E1'' at_9h]"
  by (simp add: open_sessions_def db_E1_open_def open_row_def)

lemma check_out_scenario:
  "check_out_attendance db_E1_open ''E1'' at_11h30 (Some ''28.6,77.2'') =
     (Inr (2.5, at_11h30), db_E1_checked_out)"
  by (simp add: check_out_attendance_def open_sessions_def db_E1_checked_out_def
      db_E1_open_def init_db_def staff_def open_row_def at_simps hours_9h_11h30 Let_def)

subsection \<open>Checkout\<close>

text \<open>
  C4. When no attendance row of the employee has a NULL \<open>check_out_time\<close>,
  \<open>check_out_attendance\<close> returns the pair \<open>(None, message)\<close>, a value and not an
  exception, and the database it leaves is the one it found: no table has changed.
\<close>

theorem check_out_no_open_session:
  assumes "\<forall>r \<in> set (attendance s). att_employee_id r = eid \<longrightarrow> check_out_time r \<noteq> None"
  shows "check_out_attendance s eid now location =
           (Inl ''No check-in record found. Please check in first.'', s)"
proof -
  have "open_sessions s eid = []"
    using assms by (auto simp add: open_sessions_def filter_empty_conv)
  then show ?thesis by (simp add: check_out_attendance_def)
qed

theorem check_out_no_open_session_witness:
  "open_sessions db_E1 ''E1'' = []
   \<and> open_sessions db_E1 ''E2'' = [open_row 2 ''E2'' at_8h]
   \<and> check_out_attendance db_E1 ''E1'' at_11h30 None =
       (Inl ''No check-in record found. Please check in first.'', db_E1)"
  using check_out_no_open_session [of db_E1 "''E1''" at_11h30 None]
  by (simp add: open_sessions_def db_E1_def closed_row_def open_row_def)

text \<open>
  C3, as the code has it. When the employee has an open session (and the ids of the table are distinct, as a
  primary key is), \<open>check_out_attendance\<close> succeeds and rewrites exactly one position
  \<open>i\<close> of the table: the row there is an open session of the employee whose check-in
  time is the greatest among the employee's open sessions, and it receives the checkout
  time, the checkout location and the working hours. Every other position, so also an
  older session that is still open, and every other table, is as before. Where the open
  sessions of the employee were checked in in the order of their ids, the row closed is
  also the one with the greatest id, the one created last.
\<close>

theorem check_out_closes_latest_open:
  assumes "\<exists>r \<in> set (attendance s). att_employee_id r = eid \<and> check_out_time r = None"
    and "distinct (map att_id (attendance s))"
  shows "\<exists>i hours. i < length (attendance s)
           \<and> att_employee_id (attendance s ! i) = eid
           \<and> check_out_time (attendance s ! i) = None
           \<and> (\<forall>r \<in> set (attendance s).
                 att_employee_id r = eid \<and> check_out_time r = None \<longrightarrow>
                 dt_key (check_in_time r) \<le> dt_key (check_in_time (attendance s ! i)))
           \<and> ((\<forall>r \<in> set (open_sessions s eid). \<forall>r' \<in> set (open_sessions s eid).
                   att_id r < att_id r' \<longrightarrow>
                   dt_key (check_in_time r) < dt_key (check_in_time r'))
                \<longrightarrow> (\<forall>r \<in> set (open_sessions s eid).
                       att_id r \<le> att_id (attendance s ! i)))
           \<and> check_out_attendance s eid now location =
               (Inr (hours, now),
                s\<lparr>attendance := (attendance s)
                   [i := (attendance s ! i)\<lparr>check_out_time := Some now,
                                             check_out_location := location,
                                             working_hours := Some hours\<rparr>]\<rparr>)"
proof -
  from assms(1) have "open_sessions s eid \<noteq> []"
    by (auto simp add: open_sessions_def filter_empty_conv)
  then obtain row where row: "order_by_check_in_desc_limit_1 (open_sessions s eid) = Some row"
    by (cases "order_by_check_in_desc_limit_1 (open_sessions s eid)")
       (simp_all add: limit_1_None_iff)
  from limit_1_Some [OF row]
  have mem: "row \<in> set (open_sessions s eid)"
    and max: "\<forall>x \<in> set (open_sessions s eid).
                dt_key (check_in_time x) \<le> dt_key (check_in_time row)"
    by simp_all
  from mem have row_in: "row \<in> set (attendance s)" and row_e: "att_employee_id row = eid"
    and row_open: "check_out_time row = None"
    by (simp_all add: open_sessions_def)
  from row_in obtain i where i: "i < length (attendance s)" "attendance s ! i = row"
    by (auto simp add: in_set_conv_nth)
  define hours where "hours = total_seconds (dt_sub now (check_in_time row)) / 3600"
  have upd: "map (\<lambda>r. if att_id r = att_id row
                       then r\<lparr>check_out_time := Some now, check_out_location := location,
                              working_hours := Some hours\<rparr>
                       else r) (attendance s)
             = (attendance s)[i := row\<lparr>check_out_time := Some now,
                                        check_out_location := location,
                                        working_hours := Some hours\<rparr>]"
    using map_update_by_id [OF assms(2) i(1),
      of "\<lambda>r. r\<lparr>check_out_time := Some now, check_out_location := location,
                  working_hours := Some hours\<rparr>"] i(2) by simp
  have result: "check_out_attendance s eid now location =
          (Inr (hours, now),
           s\<lparr>attendance := (attendance s)[i := row\<lparr>check_out_time := Some now,
                                        check_out_location := location,
                                        working_hours := Some hours\<rparr>]\<rparr>)"
    by (simp add: check_out_attendance_def row Let_def hours_def [symmetric] upd)
  have latest: "\<forall>r \<in> set (attendance s).
                 att_employee_id r = eid \<and> check_out_time r = None \<longrightarrow>
                 dt_key (check_in_time r) \<le> dt_key (check_in_time row)"
    using max by (simp add: open_sessions_def)
  have newest: "\<forall>r \<in> set (open_sessions s eid). att_id r \<le> att_id row"
    if mono: "\<forall>r \<in> set (open_sessions s eid). \<forall>r' \<in> set (open_sessions s eid).
                att_id r < att_id r' \<longrightarrow>
                dt_key (check_in_time r) < dt_key (check_in_time r')"
  proof
    fix r assume r: "r \<in> set (open_sessions s eid)"
    show "att_id r \<le> att_id row"
    proof (rule ccontr)
      assume "\<not> att_id r \<le> att_id row"
      then have "att_id row < att_id r" by simp
      with mono mem r have "dt_key (check_in_time row) < dt_key (check_in_time r)" by blast
      moreover from max r have "dt_key (check_in_time r) \<le> dt_key (check_in_time row)"
        by blast
      ultimately show False by simp
    qed
  qed
  show ?thesis
    using i(1) row_e row_open latest newest result unfolding i(2) [symmetric] by blast
qed

theorem check_out_closes_latest_open_witness:
  "(\<exists>r \<in> set (attendance db_E1_open). att_employee_id r = ''E1'' \<and> check_out_time r = None)
   \<and> distinct (map att_id (attendance db_E1_open))
   \<and> (\<exists>i hours. i < length (attendance db_E1_open)
           \<and> att_employee_id (attendance db_E1_open ! i) = ''E1''
           \<and> check_out_time (attendance db_E1_open ! i) = None
           \<and> check_out_attendance db_E1_open ''E1'' at_11h30 (Some ''28.6,77.2'') =
               (Inr (hours, at_11h30),
                db_E1_open\<lparr>attendance := (attendance db_E1_open)
                   [i := (attendance db_E1_open ! i)\<lparr>check_out_time := Some at_11h30,
                                             check_out_location := Some ''28.6,77.2'',
                                             working_hours := Some hours\<rparr>]\<rparr>))
   \<and> check_out_attendance db_E1_open ''E1'' at_11h30 (Some ''28.6,77.2'') =
       (Inr (2.5, at_11h30), db_E1_checked_out)
   \<and> attendance db_E1_open =
        [open_row 1 ''E1'' at_8h, open_row 2 ''E2'' at_8h, open_row 3 ''E1'' at_9h]
   \<and> open_sessions db_E1_open ''E1'' = [open_row 1 ''E1'' at_8h, open_row 3 ''E1'' at_9h]
   \<and> attendance db_E1_checked_out =
        [open_row 1 ''E1'' at_8h, open_row 2 ''E2'' at_8h,
         (open_row 3 ''E1'' at_9h)\<lparr>check_out_time := Some at_11h30,
            check_out_location := Some ''28.6,77.2'', working_hours := Some 2.5\<rparr>]"
proof -
  have h1: "\<exists>r \<in> set (attendance db_E1_open). att_employee_id r = ''E1'' \<and> check_out_time r = None"
    by (simp add: db_E1_open_def open_row_def)
  have h2: "distinct (map att_id (attendance db_E1_open))"
    by (simp add: db_E1_open_def open_row_def)
  have "\<exists>i hours. i < length (attendance db_E1_open)
           \<and> att_employee_id (attendance db_E1_open ! i) = ''E1''
           \<and> check_out_time (attendance db_E1_open ! i) = None
           \<and> check_out_attendance db_E1_open ''E1'' at_11h30 (Some ''28.6,77.2'') =
               (Inr (hours, at_11h30),
                db_E1_open\<lparr>attendance := (attendance db_E1_open)
                   [i := (attendance db_E1_open ! i)\<lparr>check_out_time := Some at_11h30,
                                             check_out_location := Some ''28.6,77.2'',
                                             working_hours := Some hours\<rparr>]\<rparr>)"
    using check_out_closes_latest_open [OF h1 h2, of at_11h30 "Some ''28.6,77.2''"]
    by blast
  moreover have "attendance db_E1_open =
        [open_row 1 ''E1'' at_8h, open_row 2 ''E2'' at_8h, open_row 3 ''E1'' at_9h]"
    by (simp add: db_E1_open_def)
  moreover have "attendance db_E1_checked_out =
        [open_row 1 ''E1'' at_8h, open_row 2 ''E2'' at_8h,
         (open_row 3 ''E1'' at_9h)\<lparr>check_out_time := Some at_11h30,
            check_out_location := Some ''28.6,77.2'', working_hours := Some 2.5\<rparr>]"
    by (simp add: db_E1_checked_out_def)
  ultimately show ?thesis
    using h1 h2 check_out_scenario open_sessions_scenario by (intro conjI)
qed

text \<open>
  C3, as the specification states it, fails. \<open>E1\<close> checks in at a clock reading of 9:00
  and then, the clock having been set back, at 8:00; both sessions are open and the
  table satisfies its invariant. The checkout at 11:30 closes the session with id 1,
  checked in at 9:00, and the session created last, with id 2, stays open.
\<close>

theorem check_out_closes_latest_open_counterexample:
  "attendance db_clock_back = [open_row 1 ''E1'' at_9h, open_row 2 ''E1'' at_8h]
   \<and> attendance_wf db_clock_back
   \<and> attendance (snd (check_out_attendance db_clock_back ''E1'' at_11h30 None)) =
       [(open_row 1 ''E1'' at_9h)\<lparr>check_out_time := Some at_11h30,
           check_out_location := None, working_hours := Some 2.5\<rparr>,
        open_row 2 ''E1'' at_8h]"
  by (simp add: db_clock_back_def check_in_attendance_def check_out_attendance_def
      open_sessions_def attendance_wf_def init_db_def open_row_def at_simps hours_9h_11h30
      Let_def)



section \<open>Payroll\<close>

lemma sql_sum_total:
  "(case sql_sum vs of None \<Rightarrow> 0 | Some h \<Rightarrow> h) =
     sum_list (map (\<lambda>v. case v of None \<Rightarrow> 0 | Some h \<Rightarrow> h) vs)"
  by (induction vs rule: sql_sum.induct) (auto split: option.splits)

text \<open>An employee registered without a rate has no salary until an assignment sets
  the rate.\<close>

lemma calculate_salary_unassigned:
  assumes "register_employee s e = Inr s'" and "rate_per_hour e = None"
  shows "calculate_salary s' (employee_id e) now = None"
proof -
  from assms(1) have "employees s' (employee_id e) = Some e"
    by (auto simp add: register_employee_def split: if_splits)
  with assms(2) show ?thesis by (simp add: calculate_salary_def)
qed

lemma calculate_salary_assigned:
  assumes "employees s eid = Some e"
  shows "calculate_salary (assign_employee_to_client s eid cid rate) eid now \<noteq> None"
  using assms by (simp add: calculate_salary_def assign_employee_to_client_def Let_def)

text \<open>
  C1, as the code has it. For an employee with a configured hourly rate
  \<open>calculate_salary\<close> returns a breakdown, in which the base salary is the rate times
  the total hours, the four benefit and insurance lines are the products of the base
  salary with the literals 0.12, 0.13, 0.05 and 0.05, and the actual salary is the base
  salary less the sum of the first retirement benefit and the first insurance only: the
  second benefit and the second insurance are computed and not deducted. Every one of
  these operations is a binary64 operation, so each line is the stated percentage of the
  base salary up to rounding: for a base salary of a magnitude between \<open>2^-1000\<close> and
  \<open>2^1000\<close>, the two benefits within \<open>2^-55\<close>, the two insurances within \<open>2^-56\<close> and
  the actual salary, against 83%, within \<open>2^-52\<close> of the magnitude of the base salary.
  With a base salary of 0 the actual salary is 0.
\<close>

theorem calculate_salary_breakdown:
  assumes "employees s eid = Some e" and "rate_per_hour e = Some rate"
  shows "\<exists>sal. calculate_salary s eid now = Some sal
           \<and> base_salary sal = float_mul rate (total_hours sal)
           \<and> retirement_benefits1 sal = float_mul (float_lit 0.12) (base_salary sal)
           \<and> retirement_benefits2 sal = float_mul (float_lit 0.13) (base_salary sal)
           \<and> insurance1 sal = float_mul (float_lit 0.05) (base_salary sal)
           \<and> insurance2 sal = float_mul (float_lit 0.05) (base_salary sal)
           \<and> actual_salary sal =
               float_sub (base_salary sal) (float_add (retirement_benefits1 sal) (insurance1 sal))
           \<and> (1 / 2 ^ 1000 \<le> \<bar>base_salary sal\<bar> \<and> \<bar>base_salary sal\<bar> \<le> 2 ^ 1000 \<longrightarrow>
                \<bar>retirement_benefits1 sal - 0.12 * base_salary sal\<bar> \<le> \<bar>base_salary sal\<bar> / 2 ^ 55
                \<and> \<bar>retirement_benefits2 sal - 0.13 * base_salary sal\<bar> \<le> \<bar>base_salary sal\<bar> / 2 ^ 55
                \<and> \<bar>insurance1 sal - 0.05 * base_salary sal\<bar> \<le> \<bar>base_salary sal\<bar> / 2 ^ 56
                \<and> \<bar>insurance2 sal - 0.05 * base_salary sal\<bar> \<le> \<bar>base_salary sal\<bar> / 2 ^ 56
                \<and> \<bar>actual_salary sal - 0.83 * base_salary sal\<bar> \<le> \<bar>base_salary sal\<bar> / 2 ^ 52)
           \<and> (base_salary sal = 0 \<longrightarrow> actual_salary sal = 0)"
proof -
  define hours where
    "hours = (case sql_sum (map working_hours
                              (filter (in_salary_query eid now) (attendance s))) of
                None \<Rightarrow> 0 | Some h \<Rightarrow> h)"
  define B where "B = float_mul rate hours"
  define sal where
    "sal = \<lparr>total_hours = hours, base_salary = B,
            retirement_benefits1 = float_mul (float_lit 0.12) B,
            retirement_benefits2 = float_mul (float_lit 0.13) B,
            insurance1 = float_mul (float_lit 0.05) B,
            insurance2 = float_mul (float_lit 0.05) B,
            actual_salary = float_sub B (float_add (float_mul (float_lit 0.12) B)
                                                   (float_mul (float_lit 0.05) B))\<rparr>"
  have calc: "calculate_salary s eid now = Some sal"
    using assms by (simp add: calculate_salary_def Let_def sal_def B_def hours_def)
  have sel: "total_hours sal = hours" "base_salary sal = B"
    "retirement_benefits1 sal = float_mul (float_lit 0.12) B"
    "retirement_benefits2 sal = float_mul (float_lit 0.13) B"
    "insurance1 sal = float_mul (float_lit 0.05) B"
    "insurance2 sal = float_mul (float_lit 0.05) B"
    "actual_salary sal = float_sub B (float_add (float_mul (float_lit 0.12) B)
                                                (float_mul (float_lit 0.05) B))"
    by (simp_all add: sal_def)
  have bounds:
    "\<bar>float_mul (float_lit 0.12) B - 0.12 * B\<bar> \<le> \<bar>B\<bar> / 2 ^ 55
     \<and> \<bar>float_mul (float_lit 0.13) B - 0.13 * B\<bar> \<le> \<bar>B\<bar> / 2 ^ 55
     \<and> \<bar>float_mul (float_lit 0.05) B - 0.05 * B\<bar> \<le> \<bar>B\<bar> / 2 ^ 56
     \<and> \<bar>float_mul (float_lit 0.05) B - 0.05 * B\<bar> \<le> \<bar>B\<bar> / 2 ^ 56
     \<and> \<bar>float_sub B (float_add (float_mul (float_lit 0.12) B) (float_mul (float_lit 0.05) B))
          - 0.83 * B\<bar> \<le> \<bar>B\<bar> / 2 ^ 52"
    if "1 / 2 ^ 1000 \<le> \<bar>B\<bar> \<and> \<bar>B\<bar> \<le> 2 ^ 1000"
    using that rb1_error [of B] rb2_error [of B] ins1_error [of B] actual_salary_error [of B]
    by blast
  have zero: "float_sub B (float_add (float_mul (float_lit 0.12) B)
                                     (float_mul (float_lit 0.05) B)) = 0"
    if "B = 0"
    using that by simp
  show ?thesis
    unfolding calc
    by (intro exI [of _ sal] conjI impI; (simp only: sel)?)
       (use bounds zero in \<open>simp_all only: B_def [symmetric] simp_thms\<close>)
qed

lemma calculate_salary_scenario:
  "calculate_salary db_E1 ''E1'' at_11h30 =
     Some \<lparr>total_hours = 2.5, base_salary = 250, retirement_benefits1 = 30,
           retirement_benefits2 = 32.5, insurance1 = 12.5, insurance2 = 12.5,
           actual_salary = 207.5\<rparr>"
  by (simp add: calculate_salary_def scenario_defs in_salary_query_def start_month_def
      dt_key_def Let_def float_lit_def float_mul_def float_add_def float_sub_def round64_eval)

theorem calculate_salary_breakdown_witness:
  "employees db_E1 ''E1'' = Some employee_E1 \<and> rate_per_hour employee_E1 = Some 100
   \<and> calculate_salary db_E1 ''E1'' at_11h30 =
       Some \<lparr>total_hours = 2.5, base_salary = 250, retirement_benefits1 = 30,
             retirement_benefits2 = 32.5, insurance1 = 12.5, insurance2 = 12.5,
             actual_salary = 207.5\<rparr>
   \<and> 1 / 2 ^ 1000 \<le> \<bar>250 :: real\<bar> \<and> \<bar>250 :: real\<bar> \<le> 2 ^ 1000
   \<and> \<bar>207.5 - 0.83 * 250 :: real\<bar> \<le> \<bar>250\<bar> / 2 ^ 52"
  using calculate_salary_breakdown [of db_E1 "''E1''" employee_E1 100 at_11h30]
    calculate_salary_scenario
  by (simp add: scenario_defs)

text \<open>
  C1, as the specification states it, fails. \<open>E1\<close>, at 100 per hour, has one closed
  session of six minutes, stored as 0.1 hours; the base salary is 10. The first benefit
  is the binary64 number next below 1.2 and the actual salary the binary64 number
  nearest to 8.3. That number is neither 83% of 10 nor what \<open>0.83 * base_salary\<close>
  gives in binary64, the number next below it; and the first benefit is not 12% of 10.
\<close>

theorem calculate_salary_breakdown_counterexample:
  "employees db_six_minutes ''E1'' = Some employee_E1 \<and> rate_per_hour employee_E1 = Some 100
   \<and> calculate_salary db_six_minutes ''E1'' at_11h30 =
       Some \<lparr>total_hours = 3602879701896397 / 36028797018963968, base_salary = 10,
             retirement_benefits1 = 5404319552844595 / 4503599627370496,
             retirement_benefits2 = 5854679515581645 / 4503599627370496,
             insurance1 = 1 / 2, insurance2 = 1 / 2,
             actual_salary = 2336242306698445 / 281474976710656\<rparr>
   \<and> float_mul (float_lit 0.83) 10 = 4672484613396889 / 562949953421312
   \<and> (2336242306698445 / 281474976710656 :: real) \<noteq> 4672484613396889 / 562949953421312
   \<and> (2336242306698445 / 281474976710656 :: real) \<noteq> 0.83 * 10
   \<and> (5404319552844595 / 4503599627370496 :: real) \<noteq> 0.12 * 10"
  by (simp add: calculate_salary_def scenario_defs db_six_minutes_def at_9h06_def
      in_salary_query_def start_month_def dt_key_def Let_def
      float_lit_def float_mul_def float_add_def float_sub_def round64_eval)

text \<open>
  C6, as the code has it. The total hours of \<open>calculate_salary\<close> are the sum of the
  working hours of the closed sessions of the employee whose check-in time is on or after
  midnight of the first day of the month of \<open>now\<close>. The query has no upper bound: it
  does not compare a check-in time with \<open>now\<close>.
\<close>

theorem calculate_salary_period:
  assumes "employees s eid = Some e" and "rate_per_hour e = Some rate"
  shows "\<exists>sal. calculate_salary s eid now = Some sal
           \<and> total_hours sal =
               sum_list (map hours_or_0
                 (filter (\<lambda>r. att_employee_id r = eid \<and> check_out_time r \<noteq> None
                              \<and> dt_key (start_month now) \<le> dt_key (check_in_time r))
                         (attendance s)))"
  using assms
  by (simp add: calculate_salary_def Let_def sql_sum_total in_salary_query_def
      hours_or_0_def [abs_def] comp_def cong: filter_cong)

theorem calculate_salary_period_witness:
  "employees db_E1 ''E1'' = Some employee_E1 \<and> rate_per_hour employee_E1 = Some 100
   \<and> filter (\<lambda>r. att_employee_id r = ''E1'' \<and> check_out_time r \<noteq> None
                 \<and> dt_key (start_month at_11h30) \<le> dt_key (check_in_time r))
        (attendance db_E1) = [closed_row 3 ''E1'' at_9h at_11h30 2.5]
   \<and> map_option total_hours (calculate_salary db_E1 ''E1'' at_11h30) = Some 2.5"
  using calculate_salary_period [of db_E1 "''E1''" employee_E1 100 at_11h30]
  by (simp add: calculate_salary_def scenario_defs in_salary_query_def start_month_def
      dt_key_def Let_def)

text \<open>
  C6, as the specification states it, fails: a closed session checked in after \<open>now\<close>
  (20 May, with the clock at 10 May 11:30) is part of the total.
\<close>

theorem calculate_salary_period_counterexample:
  "attendance db_future = [closed_row 1 ''E1'' (on_day 5 20 9) (on_day 5 20 11) 2]
   \<and> dt_key at_11h30 < dt_key (on_day 5 20 9)
   \<and> map_option total_hours (calculate_salary db_future ''E1'' at_11h30) = Some 2"
  by (simp add: calculate_salary_def scenario_defs in_salary_query_def start_month_def
      dt_key_def Let_def)

text \<open>
  C8, as the code has it. \<open>calculate_salary\<close> returns \<open>None\<close> exactly when the employee
  is absent or has no hourly rate; for an employee with a rate and no closed session
  checked in on or after the first day of the current month, it returns the breakdown
  whose total hours and amounts are all 0.
\<close>

theorem calculate_salary_null:
  "(calculate_salary s eid now = None \<longleftrightarrow>
      employees s eid = None \<or> (\<exists>e. employees s eid = Some e \<and> rate_per_hour e = None))
   \<and> (\<forall>e rate. employees s eid = Some e \<and> rate_per_hour e = Some rate
         \<and> (\<forall>r \<in> set (attendance s).
               \<not> (att_employee_id r = eid \<and> check_out_time r \<noteq> None
                  \<and> dt_key (start_month now) \<le> dt_key (check_in_time r)))
       \<longrightarrow> calculate_salary s eid now =
             Some \<lparr>total_hours = 0, base_salary = 0, retirement_benefits1 = 0,
                   retirement_benefits2 = 0, insurance1 = 0, insurance2 = 0,
                   actual_salary = 0\<rparr>)"
proof -
  have "filter (in_salary_query eid now) (attendance s) = []"
    if "\<forall>r \<in> set (attendance s).
               \<not> (att_employee_id r = eid \<and> check_out_time r \<noteq> None
                  \<and> dt_key (start_month now) \<le> dt_key (check_in_time r))"
    using that by (simp add: filter_empty_conv in_salary_query_def)
  then show ?thesis
    by (auto simp add: calculate_salary_def Let_def split: option.splits)
qed

theorem calculate_salary_null_witness:
  "calculate_salary db_E1_open ''E9'' at_11h30 = None
   \<and> employees db_E1_open ''E2'' = Some employee_E2 \<and> rate_per_hour employee_E2 = None
   \<and> calculate_salary db_E1_open ''E2'' at_11h30 = None
   \<and> employees db_E1_open ''E1'' = Some employee_E1 \<and> rate_per_hour employee_E1 = Some 100
   \<and> filter (\<lambda>r. att_employee_id r = ''E1'' \<and> check_out_time r \<noteq> None
                 \<and> dt_key (start_month at_11h30) \<le> dt_key (check_in_time r))
        (attendance db_E1_open) = []
   \<and> calculate_salary db_E1_open ''E1'' at_11h30 =
        Some \<lparr>total_hours = 0, base_salary = 0, retirement_benefits1 = 0,
              retirement_benefits2 = 0, insurance1 = 0, insurance2 = 0,
              actual_salary = 0\<rparr>"
  using calculate_salary_null [of db_E1_open "''E1''" at_11h30]
    calculate_salary_null [of db_E1_open "''E2''" at_11h30]
    calculate_salary_null [of db_E1_open "''E9''" at_11h30]
  by (simp add: scenario_defs)

text \<open>
  C8, as the specification states it, fails: the only closed session of \<open>E1\<close> is of
  June, the clock reads 10 May, so \<open>E1\<close> has no closed session in the current month, and
  the total is 2 hours.
\<close>

theorem calculate_salary_null_counterexample:
  "employees db_next_month ''E1'' = Some employee_E1 \<and> rate_per_hour employee_E1 = Some 100
   \<and> attendance db_next_month = [closed_row 1 ''E1'' (on_day 6 15 9) (on_day 6 15 11) 2]
   \<and> month (on_day 6 15 9) \<noteq> month at_11h30
   \<and> map_option total_hours (calculate_salary db_next_month ''E1'' at_11h30) = Some 2"
  by (simp add: calculate_salary_def scenario_defs in_salary_query_def start_month_def
      dt_key_def Let_def)

end
